theory Spec2Isabelle
  imports Main
begin

section \<open>The thermostat of \<^verbatim>\<open>SerialLightControl-Server.py\<close>\<close>

text \<open>
  The thermostat part of the file (from line 116 on) is a three-state machine
  \<^verbatim>\<open>TemperatureMachine\<close> with a setpoint, two PWM LEDs, a 16x2 LCD and a serial
  port. The embedding keeps everything the methods read or write in one record,
  \<open>world\<close>; a method is a function from the world to a result that carries the
  world as the method left it, whether it returned or raised (Python mutates the
  objects in place, so an exception does not undo the writes made before it).

  Readings of the temperature sensor are inputs of the model: a reading is the
  integer \<^verbatim>\<open>floor(self.getFahrenheit())\<close>, or the exception the sensor access
  raised. The floating-point conversion of \<^verbatim>\<open>getFahrenheit\<close> is not modelled.
\<close>

subsection \<open>Strings as Python formats them\<close>

definition digit_char :: "nat \<Rightarrow> char" where
  "digit_char d = ''0123456789'' ! d"

fun digits :: "nat \<Rightarrow> string" where
  "digits n = (if n < 10 then [digit_char n] else digits (n div 10) @ [digit_char (n mod 10)])"

declare digits.simps [simp del]

text \<open>\<^verbatim>\<open>str(i)\<close> of an integer, which is also what an f-string field prints.\<close>

definition str_int :: "int \<Rightarrow> string" where
  "str_int i = (if i < 0 then CHR ''-'' # digits (nat (- i)) else digits (nat i))"

text \<open>\<^verbatim>\<open>s.rjust(n)\<close>, the format \<^verbatim>\<open>{x:>n}\<close>, and \<^verbatim>\<open>s.ljust(n)\<close>.\<close>

definition rjust :: "nat \<Rightarrow> string \<Rightarrow> string" where
  "rjust n s = replicate (n - length s) (CHR '' '') @ s"

definition ljust :: "nat \<Rightarrow> string \<Rightarrow> string" where
  "ljust n s = s @ replicate (n - length s) (CHR '' '')"

definition upper_char :: "char \<Rightarrow> char" where
  "upper_char c =
     (case map_of (zip ''abcdefghijklmnopqrstuvwxyz'' ''ABCDEFGHIJKLMNOPQRSTUVWXYZ'') c of
        Some u \<Rightarrow> u
      | None \<Rightarrow> c)"

definition upper :: "string \<Rightarrow> string" where
  "upper s = map upper_char s"

definition is_space :: "char \<Rightarrow> bool" where
  "is_space c = (c \<in> set [CHR '' '', CHR 0x09, CHR 0x0A, CHR 0x0B, CHR 0x0C, CHR 0x0D])"

definition strip :: "string \<Rightarrow> string" where
  "strip s = rev (dropWhile is_space (rev (dropWhile is_space s)))"

subsection \<open>The state machine, the hardware and the console\<close>

datatype mode = Off | Heat | Cool

text \<open>The \<^verbatim>\<open>id\<close> of a state is the name of the class attribute that holds it.\<close>

fun state_id :: "mode \<Rightarrow> string" where
  "state_id Off = ''off''"
| "state_id Heat = ''heat''"
| "state_id Cool = ''cool''"

text \<open>
  What a PWM LED is doing: \<^verbatim>\<open>off()\<close> leaves it \<open>LedOff\<close>, \<^verbatim>\<open>value = 1.0\<close>
  leaves it \<open>Solid\<close>, \<^verbatim>\<open>pulse(...)\<close> leaves it \<open>Pulsing\<close>.
\<close>

datatype led = LedOff | Solid | Pulsing

datatype error = Exception string

fun str_error :: "error \<Rightarrow> string" where
  "str_error (Exception msg) = msg"

record world =
  current_state :: mode
  setPoint :: int
  endDisplay :: bool
  redLight :: led
  blueLight :: led
  lcd_message :: string
  lcd_deinit :: bool
  serial_out :: "string list"
  stdout :: "string list"

datatype 'a result = Returned 'a world | Raised error world

fun world_of :: "'a result \<Rightarrow> world" where
  "world_of (Returned x w) = w"
| "world_of (Raised err w) = w"

fun returned :: "'a result \<Rightarrow> bool" where
  "returned (Returned x w) = True"
| "returned (Raised err w) = False"

definition DEBUG :: bool where
  "DEBUG = True"

definition debug_print :: "string \<Rightarrow> world \<Rightarrow> world" where
  "debug_print line w = (if DEBUG then w\<lparr>stdout := stdout w @ [line]\<rparr> else w)"

subsection \<open>\<^verbatim>\<open>TemperatureMachine\<close>: indicator policy and button handlers\<close>

text \<open>
  \<^verbatim>\<open>updateLights\<close> (lines 298-337). The sensor is read first (line 302), so a
  failing read raises before any LED is touched.
\<close>

definition updateLights :: "error + int \<Rightarrow> world \<Rightarrow> unit result" where
  "updateLights reading w =
     (case reading of
        Inl err \<Rightarrow> Raised err w
      | Inr temp \<Rightarrow>
          (let w = w\<lparr>redLight := LedOff, blueLight := LedOff\<rparr>;
               w = debug_print (''State: '' @ state_id (current_state w)) w;
               w = debug_print (''SetPoint: '' @ str_int (setPoint w)) w;
               w = debug_print (''Temp: '' @ str_int temp) w
           in if current_state w = Off then
                Returned () (w\<lparr>redLight := LedOff, blueLight := LedOff\<rparr>)
              else if current_state w = Heat then
                Returned ()
                  ((if temp < setPoint w then w\<lparr>redLight := Pulsing\<rparr>
                    else w\<lparr>redLight := Solid\<rparr>)\<lparr>blueLight := LedOff\<rparr>)
              else if current_state w = Cool then
                Returned ()
                  ((if temp > setPoint w then w\<lparr>blueLight := Pulsing\<rparr>
                    else w\<lparr>blueLight := Solid\<rparr>)\<lparr>redLight := LedOff\<rparr>)
              else Returned () w))"

text \<open>The hooks of the states (lines 250-272).\<close>

definition on_enter_heat :: "error + int \<Rightarrow> world \<Rightarrow> unit result" where
  "on_enter_heat reading w =
     (case updateLights reading w of
        Raised err w \<Rightarrow> Raised err w
      | Returned u w \<Rightarrow> Returned () (debug_print ''* Changing state to HEAT'' w))"

definition on_exit_heat :: "world \<Rightarrow> world" where
  "on_exit_heat w = w\<lparr>redLight := LedOff\<rparr>"

definition on_enter_cool :: "error + int \<Rightarrow> world \<Rightarrow> unit result" where
  "on_enter_cool reading w =
     (case updateLights reading w of
        Raised err w \<Rightarrow> Raised err w
      | Returned u w \<Rightarrow> Returned () (debug_print ''* Changing state to COOL'' w))"

definition on_exit_cool :: "world \<Rightarrow> world" where
  "on_exit_cool w = w\<lparr>blueLight := LedOff\<rparr>"

definition on_enter_off :: "world \<Rightarrow> unit result" where
  "on_enter_off w =
     Returned () (debug_print ''* Changing state to OFF'' (w\<lparr>redLight := LedOff, blueLight := LedOff\<rparr>))"

fun on_exit :: "mode \<Rightarrow> world \<Rightarrow> world" where
  "on_exit Off w = w"
| "on_exit Heat w = on_exit_heat w"
| "on_exit Cool w = on_exit_cool w"

fun on_enter :: "mode \<Rightarrow> error + int \<Rightarrow> world \<Rightarrow> unit result" where
  "on_enter Off reading w = on_enter_off w"
| "on_enter Heat reading w = on_enter_heat reading w"
| "on_enter Cool reading w = on_enter_cool reading w"

text \<open>
  The event \<^verbatim>\<open>cycle\<close> (lines 241-245) is a list of transitions. Sending the
  event takes the first transition that leaves the current state: the library runs
  the exit hook of the source, sets the current state to the target, then runs the
  enter hook of the target; with no such transition it raises
  \<^verbatim>\<open>TransitionNotAllowed\<close>.

  What the library does with the current state when the enter hook raises is not
  decided by this source, which pins no version of the library: version 2 leaves
  the target current, version 3 restores the source. It is a parameter: the state
  that is current after the enter hook of a transition from \<open>source\<close> to
  \<open>target\<close> has raised.
\<close>

type_synonym library = "mode \<Rightarrow> mode \<Rightarrow> mode"

definition keeps_target :: library where
  "keeps_target source target = target"

definition restores_source :: library where
  "restores_source source target = source"

definition cycle_transitions :: "(mode \<times> mode) list" where
  "cycle_transitions = [(Off, Heat), (Heat, Cool), (Cool, Off)]"

definition cycle :: "library \<Rightarrow> error + int \<Rightarrow> world \<Rightarrow> unit result" where
  "cycle lib reading w =
     (case find (\<lambda>t. fst t = current_state w) cycle_transitions of
        None \<Rightarrow> Raised (Exception ''TransitionNotAllowed'') w
      | Some (source, target) \<Rightarrow>
          (case on_enter target reading ((on_exit source w)\<lparr>current_state := target\<rparr>) of
             Raised err w \<Rightarrow> Raised err (w\<lparr>current_state := lib source target\<rparr>)
           | Returned u w \<Rightarrow> Returned u w))"

text \<open>
  The three button handlers (lines 274-292). \<^verbatim>\<open>processTempStateButton\<close> may
  read the sensor twice: once in the enter hook, once in its own call of
  \<^verbatim>\<open>updateLights\<close>.
\<close>

definition processTempStateButton ::
  "library \<Rightarrow> error + int \<Rightarrow> error + int \<Rightarrow> world \<Rightarrow> unit result" where
  "processTempStateButton lib hook_reading reading w =
     (let w = debug_print ''Cycling Temperature State'' w
      in case cycle lib hook_reading w of
           Raised err w \<Rightarrow> Raised err w
         | Returned u w \<Rightarrow> updateLights reading w)"

definition processTempIncButton :: "error + int \<Rightarrow> world \<Rightarrow> unit result" where
  "processTempIncButton reading w =
     (let w = debug_print ''Increasing Set Point'' w;
          w = w\<lparr>setPoint := setPoint w + 1\<rparr>;
          w = w\<lparr>setPoint := min (setPoint w) 90\<rparr>
      in updateLights reading w)"

definition processTempDecButton :: "error + int \<Rightarrow> world \<Rightarrow> unit result" where
  "processTempDecButton reading w =
     (let w = debug_print ''Decreasing Set Point'' w;
          w = w\<lparr>setPoint := setPoint w - 1\<rparr>;
          w = w\<lparr>setPoint := max (setPoint w) 40\<rparr>
      in updateLights reading w)"

text \<open>
  The wiring of lines 426-433: the green button cycles the mode, the red button
  raises the setpoint, the blue button lowers it. A press carries the readings the
  handler gets from the sensor. A handler that raises ends that press only; the
  next press finds the world as the handler left it.
\<close>

datatype press = Green "error + int" "error + int" | Red "error + int" | Blue "error + int"

fun when_pressed :: "library \<Rightarrow> press \<Rightarrow> world \<Rightarrow> unit result" where
  "when_pressed lib (Green hook_reading reading) w =
     processTempStateButton lib hook_reading reading w"
| "when_pressed lib (Red reading) w = processTempIncButton reading w"
| "when_pressed lib (Blue reading) w = processTempDecButton reading w"

fun presses :: "library \<Rightarrow> press list \<Rightarrow> world \<Rightarrow> world" where
  "presses lib [] w = w"
| "presses lib (p # ps) w = presses lib ps (world_of (when_pressed lib p w))"

fun is_green :: "press \<Rightarrow> bool" where
  "is_green (Green hook_reading reading) = True"
| "is_green (Red reading) = False"
| "is_green (Blue reading) = False"

text \<open>A press during which the sensor answers the enter hook, if the hook asks.\<close>

fun hook_reads :: "press \<Rightarrow> bool" where
  "hook_reads (Green hook_reading reading) = (\<not> isl hook_reading)"
| "hook_reads (Red reading) = True"
| "hook_reads (Blue reading) = True"

text \<open>
  The machine as line 422 constructs it: the class attributes give the setpoint 72
  and a clear shutdown flag, the library enters the initial state \<^verbatim>\<open>off\<close>, the
  LEDs of lines 182-183 start dark and the display of line 226 is cleared.
\<close>

definition blank :: world where
  "blank = \<lparr>current_state = Off, setPoint = 72, endDisplay = False,
            redLight = LedOff, blueLight = LedOff, lcd_message = [], lcd_deinit = False,
            serial_out = [], stdout = []\<rparr>"

definition tsm :: world where
  "tsm = world_of (on_enter_off blank)"

subsection \<open>The display, the telegram and the refresh loop\<close>

text \<open>
  \<^verbatim>\<open>ManagedDisplay\<close> (lines 189-223). Writing a message clears the LCD first;
  a fault of the LCD raises at that first access.
\<close>

definition updateScreen :: "error option \<Rightarrow> string \<Rightarrow> world \<Rightarrow> unit result" where
  "updateScreen fault message w =
     (case fault of
        Some err \<Rightarrow> Raised err w
      | None \<Rightarrow> Returned () (w\<lparr>lcd_message := message\<rparr>))"

definition cleanupDisplay :: "error option \<Rightarrow> world \<Rightarrow> unit result" where
  "cleanupDisplay fault w =
     (case fault of
        Some err \<Rightarrow> Raised err w
      | None \<Rightarrow> Returned () (w\<lparr>lcd_message := [], lcd_deinit := True\<rparr>))"

text \<open>\<^verbatim>\<open>setupSerialOutput\<close> (lines 339-347) reads the sensor and returns a string.\<close>

definition setupSerialOutput :: "error + int \<Rightarrow> world \<Rightarrow> string result" where
  "setupSerialOutput reading w =
     (let state = upper (state_id (current_state w))
      in case reading of
           Inl err \<Rightarrow> Raised err w
         | Inr temp \<Rightarrow> Returned (state @ '','' @ str_int temp @ '','' @ str_int (setPoint w)) w)"

text \<open>\<^verbatim>\<open>_fit16\<close> (lines 353-358).\<close>

definition fit16 :: "string \<Rightarrow> string" where
  "fit16 s = ljust 16 (take 16 s)"

text \<open>The clock, and \<^verbatim>\<open>strftime("%m/%d %H:%M:%S")\<close> on it.\<close>

record datetime =
  month :: nat
  day :: nat
  hour :: nat
  minute :: nat
  second :: nat

definition two_digits :: "nat \<Rightarrow> string" where
  "two_digits n = (if n < 10 then CHR ''0'' # digits n else digits n)"

definition strftime :: "datetime \<Rightarrow> string" where
  "strftime t =
     two_digits (month t) @ ''/'' @ two_digits (day t) @ '' '' @
     two_digits (hour t) @ '':'' @ two_digits (minute t) @ '':'' @ two_digits (second t)"

text \<open>
  What the surroundings do during one pass of the loop of \<^verbatim>\<open>manageMyDisplay\<close>:
  the time read at line 371, the reading each sensor access of the pass would get
  (line 380 for the display, line 391 inside \<^verbatim>\<open>updateLights\<close>, line 401 inside
  \<^verbatim>\<open>setupSerialOutput\<close>), whether the LCD and the serial port fail, and whether
  the main thread sets \<^verbatim>\<open>endDisplay\<close> (line 442) before the pass is over.
\<close>

record tick_env =
  now :: datetime
  temp_line2 :: "error + int"
  temp_lights :: "error + int"
  temp_uart :: "error + int"
  lcd_fault :: "error option"
  ser_fault :: "error option"
  stop_request :: bool

text \<open>
  Lines 377-392: the second line of the display and the new \<^verbatim>\<open>altCounter\<close>. The
  two renderings are the f-strings of line 381 and of lines 385-386.
\<close>

definition temp_view :: "int \<Rightarrow> string" where
  "temp_view temp_f = fit16 (''Temp:'' @ rjust 3 (str_int temp_f) @ ''F'')"

definition mode_view :: "world \<Rightarrow> string" where
  "mode_view w =
     (let mode = upper (state_id (current_state w))
      in fit16 (mode @ '' SP:'' @ rjust 3 (str_int (setPoint w)) @ ''F''))"

definition compose_line_2 :: "tick_env \<Rightarrow> int \<Rightarrow> world \<Rightarrow> (string \<times> int) result" where
  "compose_line_2 e altCounter w =
     (if altCounter < 6 then
        (case temp_line2 e of
           Inl err \<Rightarrow> Raised err w
         | Inr temp_f \<Rightarrow> Returned (temp_view temp_f, altCounter + 1) w)
      else
        (let lcd_line_2 = mode_view w;
             altCounter = altCounter + 1
         in if altCounter \<ge> 11 then
              (case updateLights (temp_lights e) w of
                 Raised err w \<Rightarrow> Raised err w
               | Returned u w \<Rightarrow> Returned (lcd_line_2, 1) w)
            else Returned (lcd_line_2, altCounter) w))"

text \<open>
  Lines 399-411: the telegram and the new \<^verbatim>\<open>counter\<close>. Only the write to the
  serial port is inside the \<^verbatim>\<open>try\<close>.
\<close>

definition send_uart :: "tick_env \<Rightarrow> int \<Rightarrow> world \<Rightarrow> int result" where
  "send_uart e counter w =
     (if counter mod 30 = 0 then
        (case setupSerialOutput (temp_uart e) w of
           Raised err w \<Rightarrow> Raised err w
         | Returned out w \<Rightarrow>
             (let msg = out @ [CHR 0x0A]
              in case ser_fault e of
                   None \<Rightarrow>
                     Returned 1
                       (debug_print (''UART -> '' @ strip msg) (w\<lparr>serial_out := serial_out w @ [msg]\<rparr>))
                 | Some err \<Rightarrow>
                     Returned 1 (debug_print (''UART write failed: '' @ str_error err) w)))
      else Returned (counter + 1) w)"

text \<open>One pass of the loop body, lines 368-411 (the sleep of line 413 takes no part).\<close>

definition tick :: "tick_env \<Rightarrow> int \<Rightarrow> int \<Rightarrow> world \<Rightarrow> (int \<times> int) result" where
  "tick e counter altCounter w =
     (let w = debug_print ''Processing Display Info...'' w;
          lcd_line_1 = fit16 (strftime (now e)) @ [CHR 0x0A]
      in case compose_line_2 e altCounter w of
           Raised err w \<Rightarrow> Raised err w
         | Returned (lcd_line_2, altCounter) w \<Rightarrow>
             (case updateScreen (lcd_fault e) (lcd_line_1 @ lcd_line_2) w of
                Raised err w \<Rightarrow> Raised err w
              | Returned u w \<Rightarrow>
                  (let w = debug_print (''Counter: '' @ str_int counter) w
                   in case send_uart e counter w of
                        Raised err w \<Rightarrow> Raised err w
                      | Returned counter w \<Rightarrow> Returned (counter, altCounter) w)))"

text \<open>
  The loop of lines 367-416 over a script of passes. It ends in \<open>Finished\<close> when it
  saw the flag and tore the display down, in \<open>Crashed\<close> when an exception left
  \<^verbatim>\<open>manageMyDisplay\<close>, and in \<open>Running\<close>, with the two counters, when the script is
  used up and the loop is still going.
\<close>

datatype outcome = Finished world | Crashed error world | Running int int world

fun outcome_world :: "outcome \<Rightarrow> world" where
  "outcome_world (Finished w) = w"
| "outcome_world (Crashed err w) = w"
| "outcome_world (Running counter altCounter w) = w"

definition teardown :: "error option \<Rightarrow> world \<Rightarrow> outcome" where
  "teardown fault w =
     (case cleanupDisplay fault w of
        Raised err w \<Rightarrow> Crashed err w
      | Returned u w \<Rightarrow> Finished w)"

fun display_loop :: "tick_env list \<Rightarrow> error option \<Rightarrow> int \<Rightarrow> int \<Rightarrow> world \<Rightarrow> outcome" where
  "display_loop [] fault counter altCounter w =
     (if endDisplay w then teardown fault w else Running counter altCounter w)"
| "display_loop (e # es) fault counter altCounter w =
     (if endDisplay w then teardown fault w
      else case tick e counter altCounter w of
             Raised err w \<Rightarrow> Crashed err w
           | Returned (counter, altCounter) w \<Rightarrow>
               display_loop es fault counter altCounter
                 (if stop_request e then w\<lparr>endDisplay := True\<rparr> else w))"


fun finished :: "outcome \<Rightarrow> bool" where
  "finished (Finished w) = True"
| "finished (Crashed err w) = False"
| "finished (Running counter altCounter w) = False"

text \<open>\<^verbatim>\<open>manageMyDisplay\<close> (lines 360-416).\<close>

definition manageMyDisplay :: "error + int \<Rightarrow> tick_env list \<Rightarrow> error option \<Rightarrow> world \<Rightarrow> outcome" where
  "manageMyDisplay reading es fault w =
     (case updateLights reading w of
        Raised err w \<Rightarrow> Crashed err w
      | Returned u w \<Rightarrow> display_loop es fault 1 1 w)"

text \<open>
  A pass in which every sensor access gets a reading, the LCD works and the main
  thread does not ask the loop to stop; the serial port may fail.
\<close>

definition fault_free :: "tick_env \<Rightarrow> bool" where
  "fault_free e =
     (\<not> isl (temp_line2 e) \<and> \<not> isl (temp_lights e) \<and> \<not> isl (temp_uart e)
      \<and> lcd_fault e = None \<and> \<not> stop_request e)"

text \<open>
  For examples: a pass at time \<open>t\<close> in which nothing fails and every sensor access
  reads \<open>temp\<close>.
\<close>

definition quiet :: "datetime \<Rightarrow> int \<Rightarrow> tick_env" where
  "quiet t temp =
     \<lparr>now = t, temp_line2 = Inr temp, temp_lights = Inr temp, temp_uart = Inr temp,
      lcd_fault = None, ser_fault = None, stop_request = False\<rparr>"

text \<open>\<^verbatim>\<open>s.startswith(p)\<close>, to pick lines out of the console.\<close>

definition startswith :: "string \<Rightarrow> string \<Rightarrow> bool" where
  "startswith p s = (take (length p) s = p)"

text \<open>
  The number a decimal numeral denotes, as the receiver of a telegram reads it:
  an optional minus sign, then digits, most significant first.
\<close>

definition digit_value :: "char \<Rightarrow> nat" where
  "digit_value c = of_char c - 48"

definition nat_of_digits :: "string \<Rightarrow> nat" where
  "nat_of_digits s = foldl (\<lambda>n c. 10 * n + digit_value c) 0 s"

definition int_of_str :: "string \<Rightarrow> int" where
  "int_of_str s =
     (if s \<noteq> [] \<and> hd s = CHR ''-'' then - int (nat_of_digits (tl s))
      else int (nat_of_digits s))"

section \<open>Properties\<close>

subsection \<open>Frame lemmas\<close>

lemma debug_print_fields [simp]:
  "current_state (debug_print l w) = current_state w"
  "setPoint (debug_print l w) = setPoint w"
  "endDisplay (debug_print l w) = endDisplay w"
  "redLight (debug_print l w) = redLight w"
  "blueLight (debug_print l w) = blueLight w"
  "lcd_message (debug_print l w) = lcd_message w"
  "lcd_deinit (debug_print l w) = lcd_deinit w"
  "serial_out (debug_print l w) = serial_out w"
  "stdout (debug_print l w) = stdout w @ [l]"
  by (simp_all add: debug_print_def DEBUG_def)

lemma updateLights_Inl [simp]: "updateLights (Inl err) w = Raised err w"
  by (simp add: updateLights_def)

lemma updateLights_returns: "returned (updateLights (Inr temp) w)"
  by (simp add: updateLights_def Let_def)

lemma updateLights_frame [simp]:
  "current_state (world_of (updateLights reading w)) = current_state w"
  "setPoint (world_of (updateLights reading w)) = setPoint w"
  "endDisplay (world_of (updateLights reading w)) = endDisplay w"
  "lcd_message (world_of (updateLights reading w)) = lcd_message w"
  "lcd_deinit (world_of (updateLights reading w)) = lcd_deinit w"
  "serial_out (world_of (updateLights reading w)) = serial_out w"
  by (simp_all add: updateLights_def Let_def split: sum.splits)


lemma updateLights_Returned:
  "updateLights reading w = Returned u w' \<Longrightarrow>
     current_state w' = current_state w \<and> setPoint w' = setPoint w \<and> endDisplay w' = endDisplay w"
  using updateLights_frame [of reading w] by simp

lemma updateLights_Raised:
  "updateLights reading w = Raised err w' \<Longrightarrow> w' = w"
  by (simp add: updateLights_def Let_def split: sum.splits if_splits)

lemma on_exit_fields:
  "setPoint (on_exit source w) = setPoint w" "endDisplay (on_exit source w) = endDisplay w"
  by (cases source; simp add: on_exit_heat_def on_exit_cool_def)+

lemma on_enter_fields:
  "current_state (world_of (on_enter target reading w)) = current_state w"
  "setPoint (world_of (on_enter target reading w)) = setPoint w"
  "endDisplay (world_of (on_enter target reading w)) = endDisplay w"
proof -
  have heat: "current_state (world_of (on_enter_heat reading w)) = current_state w
      \<and> setPoint (world_of (on_enter_heat reading w)) = setPoint w
      \<and> endDisplay (world_of (on_enter_heat reading w)) = endDisplay w"
    using updateLights_frame(1,2,3) [of reading w]
    by (cases "updateLights reading w") (simp_all add: on_enter_heat_def)
  have cool: "current_state (world_of (on_enter_cool reading w)) = current_state w
      \<and> setPoint (world_of (on_enter_cool reading w)) = setPoint w
      \<and> endDisplay (world_of (on_enter_cool reading w)) = endDisplay w"
    using updateLights_frame(1,2,3) [of reading w]
    by (cases "updateLights reading w") (simp_all add: on_enter_cool_def)
  show "current_state (world_of (on_enter target reading w)) = current_state w"
    using heat cool by (cases target) (simp_all add: on_enter_off_def)
  show "setPoint (world_of (on_enter target reading w)) = setPoint w"
    using heat cool by (cases target) (simp_all add: on_enter_off_def)
  show "endDisplay (world_of (on_enter target reading w)) = endDisplay w"
    using heat cool by (cases target) (simp_all add: on_enter_off_def)
qed

lemma on_enter_returned: "returned (on_enter target (Inr temp) w)"
  by (cases target)
     (simp_all add: on_enter_heat_def on_enter_cool_def on_enter_off_def updateLights_def Let_def)

lemma cycle_find:
  "find (\<lambda>t. fst t = m) cycle_transitions =
     Some (m, case m of Off \<Rightarrow> Heat | Heat \<Rightarrow> Cool | Cool \<Rightarrow> Off)"
  by (cases m) (simp_all add: cycle_transitions_def)

lemma cycle_mode:
  assumes "\<not> isl reading"
  shows "current_state (world_of (cycle lib reading w)) =
     (case current_state w of Off \<Rightarrow> Heat | Heat \<Rightarrow> Cool | Cool \<Rightarrow> Off)"
proof -
  define target where
    "target = (case current_state w of Off \<Rightarrow> Heat | Heat \<Rightarrow> Cool | Cool \<Rightarrow> Off)"
  define w1 where "w1 = (on_exit (current_state w) w)\<lparr>current_state := target\<rparr>"
  obtain temp where temp: "reading = Inr temp"
    using assms by (cases reading) simp_all
  have "returned (on_enter target reading w1)"
    unfolding temp by (rule on_enter_returned)
  then obtain u w2 where entered: "on_enter target reading w1 = Returned u w2"
    by (cases "on_enter target reading w1") simp_all
  have "current_state w2 = target"
    using on_enter_fields(1) [of target reading w1] unfolding entered by (simp add: w1_def)
  then show ?thesis
    by (simp add: cycle_def cycle_find target_def [symmetric] w1_def [symmetric] entered)
qed

lemma cycle_fields:
  "setPoint (world_of (cycle lib reading w)) = setPoint w"
  "endDisplay (world_of (cycle lib reading w)) = endDisplay w"
proof -
  define target where
    "target = (case current_state w of Off \<Rightarrow> Heat | Heat \<Rightarrow> Cool | Cool \<Rightarrow> Off)"
  define w1 where "w1 = (on_exit (current_state w) w)\<lparr>current_state := target\<rparr>"
  have w1: "setPoint w1 = setPoint w" "endDisplay w1 = endDisplay w"
    by (simp_all add: w1_def on_exit_fields)
  have "setPoint (world_of (cycle lib reading w)) = setPoint w
      \<and> endDisplay (world_of (cycle lib reading w)) = endDisplay w"
    using on_enter_fields(2,3) [of target reading w1]
    by (cases "on_enter target reading w1")
       (simp_all add: cycle_def cycle_find target_def [symmetric] w1_def [symmetric] w1)
  then show "setPoint (world_of (cycle lib reading w)) = setPoint w"
    and "endDisplay (world_of (cycle lib reading w)) = endDisplay w"
    by simp_all
qed

lemma processTempStateButton_mode:
  assumes "\<not> isl hook_reading"
  shows "current_state (world_of (processTempStateButton lib hook_reading reading w)) =
     (case current_state w of Off \<Rightarrow> Heat | Heat \<Rightarrow> Cool | Cool \<Rightarrow> Off)"
  using cycle_mode [OF assms, of lib "debug_print ''Cycling Temperature State'' w"]
  by (cases "cycle lib hook_reading (debug_print ''Cycling Temperature State'' w)")
     (simp_all add: processTempStateButton_def)

lemma tsm_fields [simp]:
  "current_state tsm = Off" "setPoint tsm = 72" "endDisplay tsm = False"
  "redLight tsm = LedOff" "blueLight tsm = LedOff"
  by (simp_all add: tsm_def blank_def on_enter_off_def)

lemma processTempIncButton_setPoint:
  "setPoint (world_of (processTempIncButton reading w)) = min (setPoint w + 1) 90"
  by (simp add: processTempIncButton_def Let_def)

lemma processTempDecButton_setPoint:
  "setPoint (world_of (processTempDecButton reading w)) = max (setPoint w - 1) 40"
  by (simp add: processTempDecButton_def Let_def)

lemma processTempIncButton_mode:
  "current_state (world_of (processTempIncButton reading w)) = current_state w"
  by (simp add: processTempIncButton_def Let_def)

lemma processTempDecButton_mode:
  "current_state (world_of (processTempDecButton reading w)) = current_state w"
  by (simp add: processTempDecButton_def Let_def)

lemma processTempStateButton_fields:
  "setPoint (world_of (processTempStateButton lib hook_reading reading w)) = setPoint w"
  "endDisplay (world_of (processTempStateButton lib hook_reading reading w)) = endDisplay w"
  using cycle_fields [of lib hook_reading "debug_print ''Cycling Temperature State'' w"]
  by (cases "cycle lib hook_reading (debug_print ''Cycling Temperature State'' w)";
      simp add: processTempStateButton_def)+

lemma presses_append: "presses lib (ps @ qs) w = presses lib qs (presses lib ps w)"
  by (induction ps arbitrary: w) simp_all

lemma when_pressed_mode:
  assumes "hook_reads p"
  shows "current_state (world_of (when_pressed lib p w)) =
     (if is_green p then (case current_state w of Off \<Rightarrow> Heat | Heat \<Rightarrow> Cool | Cool \<Rightarrow> Off)
      else current_state w)"
  using assms
  by (cases p)
     (simp_all add: processTempStateButton_mode processTempIncButton_mode processTempDecButton_mode)

lemma when_pressed_in_range:
  "40 \<le> setPoint w \<Longrightarrow> setPoint w \<le> 90 \<Longrightarrow>
     40 \<le> setPoint (world_of (when_pressed lib p w))
     \<and> setPoint (world_of (when_pressed lib p w)) \<le> 90"
  by (cases p)
     (simp_all add: processTempStateButton_fields processTempIncButton_setPoint
        processTempDecButton_setPoint)

lemma presses_in_range:
  "40 \<le> setPoint w \<Longrightarrow> setPoint w \<le> 90 \<Longrightarrow>
     40 \<le> setPoint (presses lib ps w) \<and> setPoint (presses lib ps w) \<le> 90"
  by (induction ps arbitrary: w) (simp_all add: when_pressed_in_range)

lemma mode_after_presses:
  assumes "list_all hook_reads ps"
  shows "current_state (presses lib ps tsm) =
    [Off, Heat, Cool] ! (length (filter is_green ps) mod 3)"
  using assms
proof (induction ps rule: rev_induct)
  case Nil
  show ?case by simp
next
  case (snoc p ps)
  have reads: "hook_reads p" and "list_all hook_reads ps"
    using snoc.prems by simp_all
  then have before: "current_state (presses lib ps tsm) =
      [Off, Heat, Cool] ! (length (filter is_green ps) mod 3)"
    using snoc.IH by simp
  have "length (filter is_green ps) mod 3 = 0 \<or> length (filter is_green ps) mod 3 = 1
      \<or> length (filter is_green ps) mod 3 = 2"
    by arith
  then show ?case
    using before by (auto simp: presses_append when_pressed_mode [OF reads] mod_Suc)
qed

lemma handler_returns:
  "returned (processTempIncButton reading w) = (\<not> isl reading)"
  "returned (processTempDecButton reading w) = (\<not> isl reading)"
  by (cases reading; simp add: processTempIncButton_def processTempDecButton_def Let_def
        updateLights_returns)+

lemma handler_raises:
  "processTempIncButton (Inl err) w =
     Raised err ((debug_print ''Increasing Set Point'' w)\<lparr>setPoint := min (setPoint w + 1) 90\<rparr>)"
  "processTempDecButton (Inl err) w =
     Raised err ((debug_print ''Decreasing Set Point'' w)\<lparr>setPoint := max (setPoint w - 1) 40\<rparr>)"
  by (simp_all add: processTempIncButton_def processTempDecButton_def Let_def)

text \<open>
  Claim C1. Let the sensor answer whenever an enter hook asks it. From the machine
  as constructed (mode \<open>Off\<close>), after any sequence of button presses the mode is
  \<open>[Off, Heat, Cool] ! (n mod 3)\<close>, where \<open>n\<close> is the number of presses of the
  green button in the sequence; in particular after \<open>n\<close> calls of
  \<^verbatim>\<open>processTempStateButton\<close> and nothing else. This holds whatever the library
  would do after a raising hook, and whatever the sensor does in the handler's own
  call of \<^verbatim>\<open>updateLights\<close>. The event has the three transitions Off to Heat,
  Heat to Cool and Cool to Off and no other; every state has its transition, so
  the event is never refused; one call of the handler moves the mode along one of
  these three edges and never along any other pair of modes.
\<close>

theorem cycle_mode_sequence:
  assumes "list_all hook_reads ps"
  shows "current_state (presses lib ps tsm) =
      [Off, Heat, Cool] ! (length (filter is_green ps) mod 3)
   \<and> current_state (presses lib (map (\<lambda>rs. Green (Inr (fst rs)) (snd rs)) readings) tsm) =
       [Off, Heat, Cool] ! (length readings mod 3)
   \<and> set cycle_transitions = {(Off, Heat), (Heat, Cool), (Cool, Off)}
   \<and> find (\<lambda>t. fst t = m) cycle_transitions =
       Some (m, case m of Off \<Rightarrow> Heat | Heat \<Rightarrow> Cool | Cool \<Rightarrow> Off)
   \<and> (current_state w,
       current_state (world_of (processTempStateButton lib (Inr temp) reading w)))
        \<in> {(Off, Heat), (Heat, Cool), (Cool, Off)}
   \<and> (current_state w,
       current_state (world_of (processTempStateButton lib (Inr temp) reading w)))
        \<notin> {(Off, Cool), (Heat, Off), (Cool, Heat), (Off, Off), (Heat, Heat), (Cool, Cool)}"
proof -
  have greens: "filter is_green (map (\<lambda>rs. Green (Inr (fst rs)) (snd rs)) readings) =
      map (\<lambda>rs. Green (Inr (fst rs)) (snd rs)) readings"
    by (induction readings) simp_all
  have reads: "list_all hook_reads (map (\<lambda>rs. Green (Inr (fst rs)) (snd rs)) readings)"
    by (induction readings) simp_all
  have seq: "current_state (presses lib (map (\<lambda>rs. Green (Inr (fst rs)) (snd rs)) readings) tsm) =
       [Off, Heat, Cool] ! (length readings mod 3)"
    using mode_after_presses [OF reads, of lib] by (simp add: greens)
  have edges: "(current_state w,
       current_state (world_of (processTempStateButton lib (Inr temp) reading w)))
        \<in> {(Off, Heat), (Heat, Cool), (Cool, Off)}
     \<and> (current_state w,
       current_state (world_of (processTempStateButton lib (Inr temp) reading w)))
        \<notin> {(Off, Cool), (Heat, Off), (Cool, Heat), (Off, Off), (Heat, Heat), (Cool, Cool)}"
    by (cases "current_state w") (simp_all add: processTempStateButton_mode)
  have table: "set cycle_transitions = {(Off, Heat), (Heat, Cool), (Cool, Off)}"
    by (simp add: cycle_transitions_def)
  show ?thesis
    using mode_after_presses [OF assms, of lib] seq table cycle_find [of m] edges
    by (simp only: simp_thms)
qed

theorem cycle_mode_sequence_witness:
  "current_state (presses restores_source
      [Green (Inr 70) (Inr 70), Red (Inl (Exception ''I2C'')),
       Green (Inr 70) (Inl (Exception ''I2C''))] tsm) = Cool
   \<and> current_state (presses keeps_target
      [Green (Inr 70) (Inr 70), Blue (Inr 70), Green (Inr 70) (Inr 70), Green (Inr 70) (Inr 70)]
      tsm) = Off"
  using cycle_mode_sequence [of
      "[Green (Inr 70) (Inr 70), Red (Inl (Exception ''I2C'')),
        Green (Inr 70) (Inl (Exception ''I2C''))]" restores_source]
    cycle_mode_sequence [of
      "[Green (Inr 70) (Inr 70), Blue (Inr 70), Green (Inr 70) (Inr 70), Green (Inr 70) (Inr 70)]"
      keeps_target]
  by simp

text \<open>
  Claim C2, as the code has it. From a setpoint in \<open>[40, 90]\<close>, every sequence of
  button presses leaves the setpoint in \<open>[40, 90]\<close>. \<^verbatim>\<open>processTempIncButton\<close>
  sets the setpoint to \<open>min (setpoint + 1) 90\<close> and \<^verbatim>\<open>processTempDecButton\<close>
  to \<open>max (setpoint - 1) 40\<close>, whether they return or raise. No setpoint makes
  them raise: each returns exactly when the sensor answers the call of
  \<^verbatim>\<open>updateLights\<close> that ends it, and otherwise raises the exception of the
  sensor, with the setpoint already set.
\<close>

theorem setpoint_stays_in_range:
  assumes "40 \<le> setPoint w" and "setPoint w \<le> 90"
  shows "40 \<le> setPoint (presses lib ps w) \<and> setPoint (presses lib ps w) \<le> 90
    \<and> setPoint (world_of (processTempIncButton reading w)) = min (setPoint w + 1) 90
    \<and> setPoint (world_of (processTempDecButton reading w)) = max (setPoint w - 1) 40
    \<and> returned (processTempIncButton reading w) = (\<not> isl reading)
    \<and> returned (processTempDecButton reading w) = (\<not> isl reading)
    \<and> processTempIncButton (Inl err) w =
        Raised err ((debug_print ''Increasing Set Point'' w)
          \<lparr>setPoint := min (setPoint w + 1) 90\<rparr>)
    \<and> processTempDecButton (Inl err) w =
        Raised err ((debug_print ''Decreasing Set Point'' w)
          \<lparr>setPoint := max (setPoint w - 1) 40\<rparr>)"
  using assms presses_in_range [of w lib ps]
  by (simp add: processTempIncButton_setPoint processTempDecButton_setPoint
        handler_returns handler_raises)

theorem setpoint_stays_in_range_witness:
  "40 \<le> setPoint tsm \<and> setPoint tsm \<le> 90
   \<and> 40 \<le> setPoint (presses restores_source (replicate 30 (Red (Inr 70))) tsm)
   \<and> setPoint (presses restores_source (replicate 30 (Red (Inr 70))) tsm) \<le> 90
   \<and> returned (processTempIncButton (Inr 70) tsm)
   \<and> setPoint (world_of (processTempIncButton (Inr 70) tsm)) = 73
   \<and> returned (processTempDecButton (Inr 70) tsm)
   \<and> setPoint (world_of (processTempDecButton (Inr 70) tsm)) = 71"
  using setpoint_stays_in_range [of tsm restores_source "replicate 30 (Red (Inr 70))" "Inr 70"]
  by simp

text \<open>
  Claim C2 as stated fails: when the sensor raises in the call of
  \<^verbatim>\<open>updateLights\<close> that ends the handler, the handler raises, after it has set
  the setpoint.
\<close>

theorem setpoint_handler_raises:
  "\<not> returned (processTempIncButton (Inl (Exception ''I2C'')) tsm)
   \<and> setPoint (world_of (processTempIncButton (Inl (Exception ''I2C'')) tsm)) = 73
   \<and> \<not> returned (processTempDecButton (Inl (Exception ''I2C'')) tsm)
   \<and> setPoint (world_of (processTempDecButton (Inl (Exception ''I2C'')) tsm)) = 71"
  by (simp add: handler_raises)

text \<open>
  Claim C3. With a reading \<open>temp\<close>, \<^verbatim>\<open>updateLights\<close> returns and leaves the two
  LEDs in a state that is a function of the mode, the reading and the setpoint
  alone: both off in mode \<open>Off\<close>; in mode \<open>Heat\<close> the red LED pulsing when
  \<open>temp < setPoint\<close> and solid otherwise (so solid at equality), the blue LED off;
  in mode \<open>Cool\<close> the blue LED pulsing when \<open>temp > setPoint\<close> and solid otherwise,
  the red LED off.
\<close>

theorem indicator_policy:
  "updateLights (Inr temp) w = Returned () (world_of (updateLights (Inr temp) w))
   \<and> (redLight (world_of (updateLights (Inr temp) w)),
      blueLight (world_of (updateLights (Inr temp) w))) =
     (case current_state w of
        Off \<Rightarrow> (LedOff, LedOff)
      | Heat \<Rightarrow> (if temp < setPoint w then Pulsing else Solid, LedOff)
      | Cool \<Rightarrow> (LedOff, if temp > setPoint w then Pulsing else Solid))"
  by (cases "current_state w") (simp_all add: updateLights_def Let_def)

text \<open>
  Claim C10. Away from the bounds the two setpoint buttons undo each other: from a
  setpoint in \<open>[40, 89]\<close> raising then lowering restores it, from a setpoint in
  \<open>[41, 90]\<close> lowering then raising restores it. At the bounds they do not: from
  90, raising then lowering gives 89; from 40, lowering then raising gives 41.
\<close>

theorem setpoint_round_trip:
  "(40 \<le> setPoint w \<and> setPoint w \<le> 89 \<longrightarrow>
      setPoint (world_of (processTempDecButton r2 (world_of (processTempIncButton r1 w)))) = setPoint w)
   \<and> (41 \<le> setPoint w \<and> setPoint w \<le> 90 \<longrightarrow>
      setPoint (world_of (processTempIncButton r2 (world_of (processTempDecButton r1 w)))) = setPoint w)
   \<and> (setPoint w = 90 \<longrightarrow>
      setPoint (world_of (processTempDecButton r2 (world_of (processTempIncButton r1 w)))) = 89)
   \<and> (setPoint w = 40 \<longrightarrow>
      setPoint (world_of (processTempIncButton r2 (world_of (processTempDecButton r1 w)))) = 41)"
  by (simp add: processTempIncButton_setPoint processTempDecButton_setPoint)

theorem setpoint_round_trip_witness:
  "setPoint (world_of (processTempDecButton (Inr 70) (world_of (processTempIncButton (Inr 70) tsm)))) = 72
   \<and> setPoint (world_of (processTempIncButton (Inr 70) (world_of (processTempDecButton (Inr 70) tsm)))) = 72
   \<and> setPoint (world_of (processTempDecButton (Inr 70)
        (world_of (processTempIncButton (Inr 70) (tsm\<lparr>setPoint := 90\<rparr>))))) = 89
   \<and> setPoint (world_of (processTempIncButton (Inr 70)
        (world_of (processTempDecButton (Inr 70) (tsm\<lparr>setPoint := 40\<rparr>))))) = 41"
  using setpoint_round_trip [of tsm "Inr 70" "Inr 70"]
    setpoint_round_trip [of "tsm\<lparr>setPoint := 90\<rparr>" "Inr 70" "Inr 70"]
    setpoint_round_trip [of "tsm\<lparr>setPoint := 40\<rparr>" "Inr 70" "Inr 70"]
  by simp

subsection \<open>Numerals, and one pass of the loop\<close>

lemma upper_state_id:
  "upper (state_id m) = (case m of Off \<Rightarrow> ''OFF'' | Heat \<Rightarrow> ''HEAT'' | Cool \<Rightarrow> ''COOL'')"
  by (cases m) (simp_all add: upper_def upper_char_def)

lemma digit_cases: "d < 10 \<Longrightarrow> d = 0 \<or> d = 1 \<or> d = 2 \<or> d = 3 \<or> d = 4 \<or> d = 5 \<or> d = 6 \<or> d = 7 \<or> d = 8 \<or> d = (9::nat)"
  by arith


lemma digit_char_in: "d < 10 \<Longrightarrow> digit_char d \<in> set ''0123456789''"
proof -
  assume "d < 10"
  then have "d = 0 \<or> d = 1 \<or> d = 2 \<or> d = 3 \<or> d = 4 \<or> d = 5 \<or> d = 6 \<or> d = 7 \<or> d = 8 \<or> d = 9"
    by (rule digit_cases)
  then show ?thesis
    unfolding digit_char_def by (elim disjE) simp_all
qed

lemma digit_value_char: "d < 10 \<Longrightarrow> digit_value (digit_char d) = d"
proof -
  assume "d < 10"
  then have "d = 0 \<or> d = 1 \<or> d = 2 \<or> d = 3 \<or> d = 4 \<or> d = 5 \<or> d = 6 \<or> d = 7 \<or> d = 8 \<or> d = 9"
    by (rule digit_cases)
  then show ?thesis
    unfolding digit_char_def digit_value_def by (elim disjE) simp_all
qed


lemma digits_not_empty: "digits n \<noteq> []"
  by (subst digits.simps) simp

lemma digits_chars: "set (digits n) \<subseteq> set ''0123456789''"
proof (induction n rule: digits.induct)
  case (1 n)
  show ?case
  proof (cases "n < 10")
    case True
    have "digits n = [digit_char n]"
      using True by (subst digits.simps) simp
    then show ?thesis
      using digit_char_in [OF True] by simp
  next
    case False
    have eq: "digits n = digits (n div 10) @ [digit_char (n mod 10)]"
      using False by (subst digits.simps) simp
    have "digit_char (n mod 10) \<in> set ''0123456789''"
      by (rule digit_char_in) simp
    then show ?thesis
      using 1 [OF False] unfolding eq by simp
  qed
qed

lemma nat_of_digits_snoc: "nat_of_digits (s @ [c]) = 10 * nat_of_digits s + digit_value c"
  by (simp add: nat_of_digits_def)

lemma nat_of_digits_digits: "nat_of_digits (digits n) = n"
proof (induction n rule: digits.induct)
  case (1 n)
  show ?case
  proof (cases "n < 10")
    case True
    have "digits n = [digit_char n]"
      using True by (subst digits.simps) simp
    then show ?thesis
      using digit_value_char [OF True] by (simp add: nat_of_digits_def)
  next
    case False
    have eq: "digits n = digits (n div 10) @ [digit_char (n mod 10)]"
      using False by (subst digits.simps) simp
    have "digit_value (digit_char (n mod 10)) = n mod 10"
      by (rule digit_value_char) simp
    then show ?thesis
      using 1 [OF False] unfolding eq by (simp add: nat_of_digits_snoc)
  qed
qed


lemma hd_digits: "hd (digits n) \<noteq> CHR ''-''"
proof -
  have "hd (digits n) \<in> set (digits n)"
    by (simp add: digits_not_empty)
  then have "hd (digits n) \<in> set ''0123456789''"
    using digits_chars [of n] by (rule subsetD [rotated])
  then show ?thesis
    by (elim disjE | simp)+
qed

lemma int_of_str_str_int: "int_of_str (str_int i) = i"
  by (simp add: int_of_str_def str_int_def nat_of_digits_digits digits_not_empty hd_digits)

lemma str_int_chars: "set (str_int i) \<subseteq> set ''-0123456789''"
proof -
  have "set ''0123456789'' \<subseteq> set ''-0123456789''"
    by (simp add: subset_insertI)
  then have "set (digits n) \<subseteq> set ''-0123456789''" for n
    using digits_chars [of n] by (rule order_trans [rotated])
  then show ?thesis
    by (simp add: str_int_def)
qed


lemma updateLights_Inr:
  "updateLights (Inr temp) w = Returned () (world_of (updateLights (Inr temp) w))"
  by (simp add: updateLights_def Let_def)

lemma compose_line_2_ok:
  assumes "\<not> isl (temp_line2 e)" and "\<not> isl (temp_lights e)"
  shows "compose_line_2 e a w =
    Returned (if a < 6 then temp_view (projr (temp_line2 e)) else mode_view w,
              if a < 6 then a + 1 else if 10 \<le> a then 1 else a + 1)
      (if 10 \<le> a then world_of (updateLights (temp_lights e) w) else w)"
proof -
  obtain t2 where t2: "temp_line2 e = Inr t2"
    using assms(1) by (cases "temp_line2 e") simp_all
  obtain t3 where t3: "temp_lights e = Inr t3"
    using assms(2) by (cases "temp_lights e") simp_all
  obtain wl where wl: "updateLights (Inr t3) w = Returned () wl"
    using updateLights_Inr by blast
  show ?thesis
    by (simp add: compose_line_2_def t2 t3 wl Let_def)
qed

lemma send_uart_ok:
  assumes "\<not> isl (temp_uart e)"
  shows "send_uart e c w =
    Returned (if c mod 30 = 0 then 1 else c + 1)
      (if c mod 30 = 0 then
         (case ser_fault e of
            None \<Rightarrow>
              debug_print
                (''UART -> '' @ strip (upper (state_id (current_state w)) @ '','' @
                   str_int (projr (temp_uart e)) @ '','' @ str_int (setPoint w) @ [CHR 0x0A]))
                (w\<lparr>serial_out := serial_out w @
                   [upper (state_id (current_state w)) @ '','' @
                    str_int (projr (temp_uart e)) @ '','' @ str_int (setPoint w) @ [CHR 0x0A]]\<rparr>)
          | Some err \<Rightarrow> debug_print (''UART write failed: '' @ str_error err) w)
       else w)"
proof -
  obtain t where t: "temp_uart e = Inr t"
    using assms by (cases "temp_uart e") simp_all
  show ?thesis
    by (simp add: send_uart_def setupSerialOutput_def t Let_def split: option.splits)
qed


lemma tick_steps:
  assumes "compose_line_2 e a (debug_print ''Processing Display Info...'' w) = Returned (l2, a') w2"
    and "lcd_fault e = None"
    and "send_uart e c (debug_print (''Counter: '' @ str_int c)
           (w2\<lparr>lcd_message := fit16 (strftime (now e)) @ [CHR 0x0A] @ l2\<rparr>)) = Returned c' w4"
  shows "tick e c a w = Returned (c', a') w4"
  using assms by (simp add: tick_def Let_def updateScreen_def)

lemma tick_ok:
  assumes "\<not> isl (temp_line2 e)" and "\<not> isl (temp_lights e)" and "\<not> isl (temp_uart e)"
    and "lcd_fault e = None"
  shows "tick e c a w =
    Returned (if c mod 30 = 0 then 1 else c + 1,
              if a < 6 then a + 1 else if 10 \<le> a then 1 else a + 1)
      (world_of (send_uart e c
         (debug_print (''Counter: '' @ str_int c)
            ((world_of (compose_line_2 e a (debug_print ''Processing Display Info...'' w)))
               \<lparr>lcd_message := fit16 (strftime (now e)) @ [CHR 0x0A] @
                  (if a < 6 then temp_view (projr (temp_line2 e)) else mode_view w)\<rparr>))))"
proof -
  define w1 where "w1 = debug_print ''Processing Display Info...'' w"
  define w2 where "w2 = world_of (compose_line_2 e a w1)"
  define l2 where "l2 = (if a < 6 then temp_view (projr (temp_line2 e)) else mode_view w)"
  define w3 where "w3 = debug_print (''Counter: '' @ str_int c)
      (w2\<lparr>lcd_message := fit16 (strftime (now e)) @ [CHR 0x0A] @ l2\<rparr>)"
  have view: "mode_view w1 = mode_view w"
    by (simp add: mode_view_def w1_def)
  have line2: "compose_line_2 e a w1 =
      Returned (l2, if a < 6 then a + 1 else if 10 \<le> a then 1 else a + 1) w2"
    unfolding w2_def l2_def by (simp add: compose_line_2_ok [OF assms(1,2)] view)
  obtain w4 where uart: "send_uart e c w3 = Returned (if c mod 30 = 0 then 1 else c + 1) w4"
    by (simp add: send_uart_ok [OF assms(3)])
  have w4: "w4 = world_of (send_uart e c w3)"
    by (simp add: uart)
  have "tick e c a w =
      Returned (if c mod 30 = 0 then 1 else c + 1,
                if a < 6 then a + 1 else if 10 \<le> a then 1 else a + 1) w4"
    by (rule tick_steps [OF line2 [unfolded w1_def] assms(4) uart [unfolded w3_def]])
  then show ?thesis
    unfolding w4 w3_def w2_def w1_def l2_def .
qed

lemma updateLights_stdout:
  "stdout (world_of (updateLights (Inr temp) w)) =
     stdout w @ [''State: '' @ state_id (current_state w),
                 ''SetPoint: '' @ str_int (setPoint w), ''Temp: '' @ str_int temp]"
  by (simp add: updateLights_def Let_def)

lemma updateLights_leds:
  "redLight (world_of (updateLights (Inr temp) w)) =
     (case current_state w of Off \<Rightarrow> LedOff
      | Heat \<Rightarrow> (if temp < setPoint w then Pulsing else Solid) | Cool \<Rightarrow> LedOff)"
  "blueLight (world_of (updateLights (Inr temp) w)) =
     (case current_state w of Off \<Rightarrow> LedOff | Heat \<Rightarrow> LedOff
      | Cool \<Rightarrow> (if temp > setPoint w then Pulsing else Solid))"
  by (cases "current_state w"; simp add: updateLights_def Let_def)+

lemma compose_line_2_world:
  assumes "\<not> isl (temp_line2 e)" and "\<not> isl (temp_lights e)"
  shows "world_of (compose_line_2 e a w) =
    (if 10 \<le> a then world_of (updateLights (temp_lights e) w) else w)"
  by (simp add: compose_line_2_ok [OF assms])

lemma send_uart_fields:
  assumes "\<not> isl (temp_uart e)"
  shows "current_state (world_of (send_uart e c w)) = current_state w"
    and "setPoint (world_of (send_uart e c w)) = setPoint w"
    and "endDisplay (world_of (send_uart e c w)) = endDisplay w"
    and "redLight (world_of (send_uart e c w)) = redLight w"
    and "blueLight (world_of (send_uart e c w)) = blueLight w"
    and "lcd_message (world_of (send_uart e c w)) = lcd_message w"
    and "lcd_deinit (world_of (send_uart e c w)) = lcd_deinit w"
    and "serial_out (world_of (send_uart e c w)) =
      (if c mod 30 = 0 \<and> ser_fault e = None then
         serial_out w @ [upper (state_id (current_state w)) @ '','' @
           str_int (projr (temp_uart e)) @ '','' @ str_int (setPoint w) @ [CHR 0x0A]]
       else serial_out w)"
    and "stdout (world_of (send_uart e c w)) =
      stdout w @
      (if c mod 30 = 0 then
         [case ser_fault e of
            None \<Rightarrow> ''UART -> '' @ strip (upper (state_id (current_state w)) @ '','' @
                str_int (projr (temp_uart e)) @ '','' @ str_int (setPoint w) @ [CHR 0x0A])
          | Some err \<Rightarrow> ''UART write failed: '' @ str_error err]
       else [])"
  by (simp_all add: send_uart_ok [OF assms] split: option.splits)


lemma tick_world:
  assumes "\<not> isl (temp_line2 e)" and "\<not> isl (temp_lights e)" and "\<not> isl (temp_uart e)"
    and "lcd_fault e = None"
  shows "world_of (tick e c a w) =
      world_of (send_uart e c
         (debug_print (''Counter: '' @ str_int c)
            ((world_of (compose_line_2 e a (debug_print ''Processing Display Info...'' w)))
               \<lparr>lcd_message := fit16 (strftime (now e)) @ [CHR 0x0A] @
                  (if a < 6 then temp_view (projr (temp_line2 e)) else mode_view w)\<rparr>)))"
  unfolding tick_ok [OF assms] by (rule world_of.simps)

lemma tick_fields:
  assumes "\<not> isl (temp_line2 e)" and "\<not> isl (temp_lights e)" and "\<not> isl (temp_uart e)"
    and "lcd_fault e = None"
  shows "current_state (world_of (tick e c a w)) = current_state w"
    and "setPoint (world_of (tick e c a w)) = setPoint w"
    and "endDisplay (world_of (tick e c a w)) = endDisplay w"
    and "lcd_deinit (world_of (tick e c a w)) = lcd_deinit w"
    and "lcd_message (world_of (tick e c a w)) =
      fit16 (strftime (now e)) @ [CHR 0x0A] @
      (if a < 6 then temp_view (projr (temp_line2 e)) else mode_view w)"
    and "serial_out (world_of (tick e c a w)) =
      (if c mod 30 = 0 \<and> ser_fault e = None then
         serial_out w @ [upper (state_id (current_state w)) @ '','' @
           str_int (projr (temp_uart e)) @ '','' @ str_int (setPoint w) @ [CHR 0x0A]]
       else serial_out w)"
    and "redLight (world_of (tick e c a w)) =
      (if 10 \<le> a then redLight (world_of (updateLights (temp_lights e) w)) else redLight w)"
    and "blueLight (world_of (tick e c a w)) =
      (if 10 \<le> a then blueLight (world_of (updateLights (temp_lights e) w)) else blueLight w)"
proof -
  obtain t3 where t3: "temp_lights e = Inr t3"
    using assms(2) by (cases "temp_lights e") simp_all
  note simps = tick_world [OF assms] send_uart_fields [OF assms(3)]
    compose_line_2_world [OF assms(1,2)] t3 updateLights_leds
  show "current_state (world_of (tick e c a w)) = current_state w"
    by (simp add: simps)
  show "setPoint (world_of (tick e c a w)) = setPoint w"
    by (simp add: simps)
  show "endDisplay (world_of (tick e c a w)) = endDisplay w"
    by (simp add: simps)
  show "lcd_deinit (world_of (tick e c a w)) = lcd_deinit w"
    by (simp add: simps)
  show "lcd_message (world_of (tick e c a w)) =
      fit16 (strftime (now e)) @ [CHR 0x0A] @
      (if a < 6 then temp_view (projr (temp_line2 e)) else mode_view w)"
    by (simp add: simps)
  show "serial_out (world_of (tick e c a w)) =
      (if c mod 30 = 0 \<and> ser_fault e = None then
         serial_out w @ [upper (state_id (current_state w)) @ '','' @
           str_int (projr (temp_uart e)) @ '','' @ str_int (setPoint w) @ [CHR 0x0A]]
       else serial_out w)"
    by (simp add: simps)
  show "redLight (world_of (tick e c a w)) =
      (if 10 \<le> a then redLight (world_of (updateLights (temp_lights e) w)) else redLight w)"
    by (simp add: simps)
  show "blueLight (world_of (tick e c a w)) =
      (if 10 \<le> a then blueLight (world_of (updateLights (temp_lights e) w)) else blueLight w)"
    by (simp add: simps)
qed

lemma tick_stdout:
  assumes "\<not> isl (temp_line2 e)" and "\<not> isl (temp_lights e)" and "\<not> isl (temp_uart e)"
    and "lcd_fault e = None"
  shows "stdout (world_of (tick e c a w)) =
      stdout w @ [''Processing Display Info...''] @
      (if 10 \<le> a then
         [''State: '' @ state_id (current_state w), ''SetPoint: '' @ str_int (setPoint w),
          ''Temp: '' @ str_int (projr (temp_lights e))]
       else []) @
      [''Counter: '' @ str_int c] @
      (if c mod 30 = 0 then
         [case ser_fault e of
            None \<Rightarrow> ''UART -> '' @ strip (upper (state_id (current_state w)) @ '','' @
                str_int (projr (temp_uart e)) @ '','' @ str_int (setPoint w) @ [CHR 0x0A])
          | Some err \<Rightarrow> ''UART write failed: '' @ str_error err]
       else [])"
proof -
  obtain t3 where t3: "temp_lights e = Inr t3"
    using assms(2) by (cases "temp_lights e") simp_all
  show ?thesis
    by (simp add: tick_world [OF assms] send_uart_fields [OF assms(3)]
          compose_line_2_world [OF assms(1,2)] t3 updateLights_stdout
          cong: option.case_cong)
qed

subsection \<open>The loop over a script of passes\<close>

lemma teardown_not_Running: "teardown fault w \<noteq> Running c a w'"
  by (simp add: teardown_def cleanupDisplay_def split: option.splits)

lemma display_loop_flag: "endDisplay w \<Longrightarrow> display_loop es fault c a w = teardown fault w"
  by (cases es) simp_all

lemma display_loop_append:
  "display_loop (es @ es') fault c a w =
     (case display_loop es fault c a w of
        Running c' a' w' \<Rightarrow> display_loop es' fault c' a' w'
      | Finished w' \<Rightarrow> Finished w'
      | Crashed err w' \<Rightarrow> Crashed err w')"
proof (induction es arbitrary: c a w)
  case Nil
  show ?case
    by (cases "teardown fault w") (simp_all add: display_loop_flag teardown_not_Running)
next
  case (Cons e es)
  show ?case
  proof (cases "endDisplay w")
    case True
    then show ?thesis
      by (cases "teardown fault w") (simp_all add: display_loop_flag teardown_not_Running)
  next
    case False
    then show ?thesis
      by (cases "tick e c a w") (simp_all add: Cons.IH split: prod.splits)
  qed
qed

lemma Running_not_flag:
  "display_loop es fault c0 a0 w0 = Running c a w \<Longrightarrow> \<not> endDisplay w"
proof (induction es arbitrary: c0 a0 w0)
  case Nil
  then show ?case
    by (cases "endDisplay w0") (simp_all add: teardown_not_Running)
next
  case (Cons e es)
  show ?case
  proof (cases "endDisplay w0")
    case True
    then show ?thesis
      using Cons.prems by (simp add: teardown_not_Running)
  next
    case False
    then show ?thesis
      using Cons.prems Cons.IH
      by (cases "tick e c0 a0 w0") (auto split: prod.splits)
  qed
qed

lemma display_loop_snoc:
  assumes "display_loop es fault c0 a0 w0 = Running c a w" and "fault_free e"
  shows "display_loop (es @ [e]) fault c0 a0 w0 =
    Running (if c mod 30 = 0 then 1 else c + 1)
      (if a < 6 then a + 1 else if 10 \<le> a then 1 else a + 1) (world_of (tick e c a w))"
proof -
  have ok: "\<not> isl (temp_line2 e)" "\<not> isl (temp_lights e)" "\<not> isl (temp_uart e)"
      "lcd_fault e = None"
    using assms(2) by (simp_all add: fault_free_def)
  have go: "\<not> stop_request e"
    using assms(2) by (simp add: fault_free_def)
  have flag: "\<not> endDisplay w"
    using assms(1) by (rule Running_not_flag)
  obtain w' where t: "tick e c a w =
      Returned (if c mod 30 = 0 then 1 else c + 1,
        if a < 6 then a + 1 else if 10 \<le> a then 1 else a + 1) w'"
    using tick_ok [OF ok] by blast
  have w': "w' = world_of (tick e c a w)"
    by (simp add: t)
  have "\<not> endDisplay w'"
    unfolding w' using flag by (simp add: tick_fields(3) [OF ok])
  then have "display_loop [e] fault c a w =
      Running (if c mod 30 = 0 then 1 else c + 1)
        (if a < 6 then a + 1 else if 10 \<le> a then 1 else a + 1) w'"
    using flag go by (simp add: t)
  then show ?thesis
    unfolding w' by (simp add: display_loop_append assms(1))
qed

lemma startswith_Cons:
  "startswith [] s"
  "startswith (d # p) (c # s) = (d = c \<and> startswith p s)"
  "\<not> startswith (d # p) []"
  by (auto simp: startswith_def)

lemma tick_evaluations:
  assumes "\<not> isl (temp_line2 e)" and "\<not> isl (temp_lights e)" and "\<not> isl (temp_uart e)"
    and "lcd_fault e = None"
  shows "length (filter (startswith ''State: '') (stdout (world_of (tick e c a w)))) =
    length (filter (startswith ''State: '') (stdout w)) + (if 10 \<le> a then 1 else 0)"
  unfolding tick_stdout [OF assms]
  by (cases "ser_fault e") (simp_all add: startswith_Cons)

lemma tick_attempts:
  assumes "\<not> isl (temp_line2 e)" and "\<not> isl (temp_lights e)" and "\<not> isl (temp_uart e)"
    and "lcd_fault e = None"
  shows "length (serial_out (world_of (tick e c a w))) +
      length (filter (startswith ''UART write failed: '') (stdout (world_of (tick e c a w)))) =
    length (serial_out w) + length (filter (startswith ''UART write failed: '') (stdout w)) +
      (if c mod 30 = 0 then 1 else 0)"
  unfolding tick_stdout [OF assms] tick_fields(6) [OF assms]
  by (cases "ser_fault e") (simp_all add: startswith_Cons)

lemma int_mod_Suc: "(int n mod int k + 1) mod int k = int (Suc n) mod int k"
proof -
  have "(int n mod int k + 1) mod int k = (int n + 1) mod int k"
    by (rule mod_add_left_eq)
  also have "int n + 1 = int (Suc n)"
    by simp
  finally show ?thesis .
qed

lemma counter_due: "((int n mod 30 + 1) mod 30 = 0) = (Suc n mod 30 = 0)"
proof -
  have "(int n mod 30 + 1) mod 30 = int (Suc n mod 30)"
    using int_mod_Suc [of n 30] by (simp add: zmod_int)
  then show ?thesis by simp
qed

lemma counter_step:
  "(if (int n mod 30 + 1) mod 30 = 0 then 1 else int n mod 30 + 1 + 1) = int (Suc n) mod 30 + 1"
proof -
  have a: "int n mod 30 = int (n mod 30)" "int (Suc n) mod 30 = int (Suc n mod 30)"
    by (simp_all add: zmod_int)
  have b: "n mod 30 < 30" by simp
  show ?thesis
    unfolding counter_due a using b by (simp add: mod_Suc)
qed

lemma altCounter_due: "(10 \<le> int n mod 10 + 1) = (Suc n mod 10 = 0)"
proof -
  have a: "int n mod 10 = int (n mod 10)" by (simp add: zmod_int)
  have b: "n mod 10 < 10" by simp
  show ?thesis
    unfolding a using b by (auto simp: mod_Suc)
qed

lemma altCounter_view: "(int n mod 10 + 1 < 6) = (n mod 10 < 5)"
proof -
  have a: "int n mod 10 = int (n mod 10)" by (simp add: zmod_int)
  show ?thesis unfolding a by auto
qed

lemma altCounter_step:
  "(if int n mod 10 + 1 < 6 then int n mod 10 + 1 + 1
    else if 10 \<le> int n mod 10 + 1 then 1 else int n mod 10 + 1 + 1) = int (Suc n) mod 10 + 1"
proof -
  have a: "int n mod 10 = int (n mod 10)" "int (Suc n) mod 10 = int (Suc n mod 10)"
    by (simp_all add: zmod_int)
  have b: "n mod 10 < 10" by simp
  show ?thesis
    unfolding altCounter_due altCounter_view unfolding a using b by (simp add: mod_Suc)
qed

lemma div_Suc_due: "Suc n div k = n div k + (if Suc n mod k = 0 then 1 else 0)"
  by (simp add: div_Suc)


lemma loop_invariant:
  assumes "list_all fault_free es" and "\<not> endDisplay w"
  shows "display_loop es fault 1 1 w =
      Running (int (length es) mod 30 + 1) (int (length es) mod 10 + 1)
        (outcome_world (display_loop es fault 1 1 w))
    \<and> current_state (outcome_world (display_loop es fault 1 1 w)) = current_state w
    \<and> setPoint (outcome_world (display_loop es fault 1 1 w)) = setPoint w
    \<and> lcd_deinit (outcome_world (display_loop es fault 1 1 w)) = lcd_deinit w
    \<and> length (filter (startswith ''State: '')
          (stdout (outcome_world (display_loop es fault 1 1 w)))) =
        length (filter (startswith ''State: '') (stdout w)) + length es div 10
    \<and> length (serial_out (outcome_world (display_loop es fault 1 1 w))) +
        length (filter (startswith ''UART write failed: '')
          (stdout (outcome_world (display_loop es fault 1 1 w)))) =
        length (serial_out w) + length (filter (startswith ''UART write failed: '') (stdout w)) +
        length es div 30"
  using assms(1)
proof (induction es rule: rev_induct)
  case Nil
  show ?case
    using assms(2) by simp
next
  case (snoc e es)
  define n where "n = length es"
  define wn where "wn = outcome_world (display_loop es fault 1 1 w)"
  have free: "fault_free e" and frees: "list_all fault_free es"
    using snoc.prems by simp_all
  note ih = snoc.IH [OF frees, folded wn_def n_def]
  have ok: "\<not> isl (temp_line2 e)" "\<not> isl (temp_lights e)" "\<not> isl (temp_uart e)"
      "lcd_fault e = None"
    using free by (simp_all add: fault_free_def)
  have run: "display_loop es fault 1 1 w = Running (int n mod 30 + 1) (int n mod 10 + 1) wn"
    using ih by simp
  have step: "display_loop (es @ [e]) fault 1 1 w =
      Running (int (Suc n) mod 30 + 1) (int (Suc n) mod 10 + 1)
        (world_of (tick e (int n mod 30 + 1) (int n mod 10 + 1) wn))"
    using display_loop_snoc [OF run free] by (simp only: counter_step altCounter_step)
  have len: "length (es @ [e]) = Suc n"
    by (simp add: n_def)
  show ?case
    unfolding step len outcome_world.simps
    using ih
    by (simp only: tick_fields(1,2,4) [OF ok] tick_evaluations [OF ok] tick_attempts [OF ok]
          counter_due altCounter_due div_Suc_due [of n 10] div_Suc_due [of n 30])
       simp
qed

subsection \<open>The refresh cycle\<close>

lemma loop_last_pass:
  assumes "list_all fault_free es" and "fault_free e" and "\<not> endDisplay w"
  shows "outcome_world (display_loop (es @ [e]) fault 1 1 w) =
    world_of (tick e (int (length es) mod 30 + 1) (int (length es) mod 10 + 1)
      (outcome_world (display_loop es fault 1 1 w)))"
proof -
  have "display_loop es fault 1 1 w =
      Running (int (length es) mod 30 + 1) (int (length es) mod 10 + 1)
        (outcome_world (display_loop es fault 1 1 w))"
    using loop_invariant [OF assms(1,3)] by (rule conjunct1)
  then show ?thesis
    using display_loop_snoc [OF _ assms(2)] by simp
qed

lemma manageMyDisplay_Inr:
  "manageMyDisplay (Inr temp) es fault w =
     display_loop es fault 1 1 (world_of (updateLights (Inr temp) w))"
proof -
  obtain wl where wl: "updateLights (Inr temp) w = Returned () wl"
    using updateLights_Inr by blast
  show ?thesis
    by (simp add: manageMyDisplay_def wl)
qed

lemma length_fit16: "length (fit16 s) = 16"
  by (simp add: fit16_def ljust_def)

lemma mode_view_cong:
  "current_state w' = current_state w \<Longrightarrow> setPoint w' = setPoint w \<Longrightarrow> mode_view w' = mode_view w"
  by (simp add: mode_view_def)

text \<open>
  Claim C5. While every pass of the loop finds its collaborators working, pass
  number \<open>k = length es + 1\<close> leaves on the display the clock line, a newline and
  a second line, each cut or padded with blanks to 16 characters. The second line
  is \<^verbatim>\<open>Temp:\<close>, the reading right-justified in three columns and \<^verbatim>\<open>F\<close>
  when \<open>(k - 1) mod 10 < 5\<close> (passes 1 to 5 of each window of ten); otherwise
  (passes 6 to 10) it is the mode in capitals, \<^verbatim>\<open> SP:\<close>, the setpoint
  right-justified in three columns and \<^verbatim>\<open>F\<close>. The numbers are printed in
  decimal. When \<open>k\<close> is a multiple of ten the pass leaves the two LEDs as the
  indicator policy says for the mode, the setpoint and the reading
  \<^verbatim>\<open>updateLights\<close> got in that pass; any other pass leaves them as they were.
  \<^verbatim>\<open>updateLights\<close> has been run once before the first pass (line 365) and
  \<open>k div 10\<close> times by the loop, as the lines \<^verbatim>\<open>State: ...\<close> on the console
  count.
\<close>

theorem line2_alternation:
  assumes "list_all fault_free es" and "fault_free e" and "\<not> endDisplay w"
  shows "lcd_message (outcome_world (manageMyDisplay (Inr temp) (es @ [e]) fault w)) =
      fit16 (strftime (now e)) @ [CHR 0x0A] @
      (if length es mod 10 < 5 then
         fit16 (''Temp:'' @ rjust 3 (str_int (projr (temp_line2 e))) @ ''F'')
       else
         fit16 ((case current_state w of Off \<Rightarrow> ''OFF'' | Heat \<Rightarrow> ''HEAT'' | Cool \<Rightarrow> ''COOL'') @
           '' SP:'' @ rjust 3 (str_int (setPoint w)) @ ''F''))
    \<and> fit16 s = take 16 s @ replicate (16 - length (take 16 s)) (CHR '' '')
    \<and> length (fit16 s) = 16
    \<and> rjust 3 s = replicate (3 - length s) (CHR '' '') @ s
    \<and> int_of_str (str_int i) = i
    \<and> set (str_int i) \<subseteq> set ''-0123456789''
    \<and> (redLight (outcome_world (manageMyDisplay (Inr temp) (es @ [e]) fault w)),
        blueLight (outcome_world (manageMyDisplay (Inr temp) (es @ [e]) fault w))) =
       (if Suc (length es) mod 10 = 0 then
          (case current_state w of
             Off \<Rightarrow> (LedOff, LedOff)
           | Heat \<Rightarrow> (if projr (temp_lights e) < setPoint w then Pulsing else Solid, LedOff)
           | Cool \<Rightarrow> (LedOff, if projr (temp_lights e) > setPoint w then Pulsing else Solid))
        else
          (redLight (outcome_world (manageMyDisplay (Inr temp) es fault w)),
           blueLight (outcome_world (manageMyDisplay (Inr temp) es fault w))))
    \<and> length (filter (startswith ''State: '')
          (stdout (outcome_world (manageMyDisplay (Inr temp) (es @ [e]) fault w)))) =
        length (filter (startswith ''State: '') (stdout w)) + 1 + (length es + 1) div 10"
proof -
  define w0 where "w0 = world_of (updateLights (Inr temp) w)"
  define wn where "wn = outcome_world (display_loop es fault 1 1 w0)"
  have flag: "\<not> endDisplay w0"
    using assms(3) by (simp add: w0_def)
  have ok: "\<not> isl (temp_line2 e)" "\<not> isl (temp_lights e)" "\<not> isl (temp_uart e)"
      "lcd_fault e = None"
    using assms(2) by (simp_all add: fault_free_def)
  obtain t3 where t3: "temp_lights e = Inr t3"
    using ok(2) by (cases "temp_lights e") simp_all
  have frees: "list_all fault_free (es @ [e])"
    using assms(1,2) by simp
  have before: "current_state wn = current_state w" "setPoint wn = setPoint w"
    unfolding wn_def using loop_invariant [OF assms(1) flag, of fault] by (simp_all add: w0_def)
  have view: "mode_view wn = mode_view w"
    using before by (rule mode_view_cong)
  have "lcd_message (outcome_world (display_loop (es @ [e]) fault 1 1 w0)) =
      fit16 (strftime (now e)) @ [CHR 0x0A] @
      (if length es mod 10 < 5 then temp_view (projr (temp_line2 e)) else mode_view w)"
    unfolding loop_last_pass [OF assms(1,2) flag] tick_fields(5) [OF ok] wn_def [symmetric]
      view altCounter_view ..
  then have message: "lcd_message (outcome_world (display_loop (es @ [e]) fault 1 1 w0)) =
      fit16 (strftime (now e)) @ [CHR 0x0A] @
      (if length es mod 10 < 5 then
         fit16 (''Temp:'' @ rjust 3 (str_int (projr (temp_line2 e))) @ ''F'')
       else
         fit16 ((case current_state w of Off \<Rightarrow> ''OFF'' | Heat \<Rightarrow> ''HEAT'' | Cool \<Rightarrow> ''COOL'') @
           '' SP:'' @ rjust 3 (str_int (setPoint w)) @ ''F''))"
    by (simp add: temp_view_def mode_view_def upper_state_id)
  have "(redLight (outcome_world (display_loop (es @ [e]) fault 1 1 w0)),
        blueLight (outcome_world (display_loop (es @ [e]) fault 1 1 w0))) =
       (if Suc (length es) mod 10 = 0 then
          (redLight (world_of (updateLights (Inr t3) wn)),
           blueLight (world_of (updateLights (Inr t3) wn)))
        else (redLight wn, blueLight wn))"
    unfolding loop_last_pass [OF assms(1,2) flag] tick_fields(7,8) [OF ok] wn_def [symmetric]
      altCounter_due t3
    by simp
  then have leds: "(redLight (outcome_world (display_loop (es @ [e]) fault 1 1 w0)),
        blueLight (outcome_world (display_loop (es @ [e]) fault 1 1 w0))) =
       (if Suc (length es) mod 10 = 0 then
          (case current_state w of
             Off \<Rightarrow> (LedOff, LedOff)
           | Heat \<Rightarrow> (if projr (temp_lights e) < setPoint w then Pulsing else Solid, LedOff)
           | Cool \<Rightarrow> (LedOff, if projr (temp_lights e) > setPoint w then Pulsing else Solid))
        else
          (redLight (outcome_world (display_loop es fault 1 1 w0)),
           blueLight (outcome_world (display_loop es fault 1 1 w0))))"
    unfolding wn_def [symmetric]
    by (cases "current_state w") (simp_all add: updateLights_leds before t3)
  have "length (filter (startswith ''State: '') (stdout w0)) =
      length (filter (startswith ''State: '') (stdout w)) + 1"
    by (simp add: w0_def updateLights_stdout startswith_Cons)
  then have runs: "length (filter (startswith ''State: '')
        (stdout (outcome_world (display_loop (es @ [e]) fault 1 1 w0)))) =
      length (filter (startswith ''State: '') (stdout w)) + 1 + (length es + 1) div 10"
    using loop_invariant [OF frees flag, of fault] by simp
  have fit: "fit16 s = take 16 s @ replicate (16 - length (take 16 s)) (CHR '' '')"
    by (simp add: fit16_def ljust_def)
  have just: "rjust 3 s = replicate (3 - length s) (CHR '' '') @ s"
    by (simp add: rjust_def)
  show ?thesis
    unfolding manageMyDisplay_Inr w0_def [symmetric]
    by (intro conjI message leds runs fit just length_fit16 int_of_str_str_int str_int_chars)
qed

lemma tsm_outputs:
  "lcd_message tsm = []" "lcd_deinit tsm = False" "serial_out tsm = []"
  "stdout tsm = [''* Changing state to OFF'']"
  by (simp_all add: tsm_def blank_def on_enter_off_def)

lemma replicate_numeral: "replicate (numeral k) x = x # replicate (pred_numeral k) x"
  by (simp add: numeral_eq_Suc)

lemma fault_free_quiet: "fault_free (quiet t temp)"
  by (simp add: fault_free_def quiet_def)

lemma quiet_fields:
  "now (quiet t temp) = t" "temp_line2 (quiet t temp) = Inr temp"
  "temp_lights (quiet t temp) = Inr temp" "temp_uart (quiet t temp) = Inr temp"
  "lcd_fault (quiet t temp) = None" "ser_fault (quiet t temp) = None"
  "stop_request (quiet t temp) = False"
  by (simp_all add: quiet_def)

theorem line2_alternation_witness:
  "lcd_message (outcome_world (manageMyDisplay (Inr 70)
      (replicate 2 (quiet \<lparr>month = 12, day = 7, hour = 17, minute = 43, second = 26\<rparr> 70) @
       [quiet \<lparr>month = 12, day = 7, hour = 17, minute = 43, second = 28\<rparr> 71]) None tsm)) =
     ''12/07 17:43:28  '' @ [CHR 0x0A] @ ''Temp: 71F       ''
   \<and> lcd_message (outcome_world (manageMyDisplay (Inr 80)
      (replicate 9 (quiet \<lparr>month = 12, day = 7, hour = 17, minute = 43, second = 26\<rparr> 80) @
       [quiet \<lparr>month = 12, day = 7, hour = 17, minute = 43, second = 35\<rparr> 65]) None
      (tsm\<lparr>current_state := Heat\<rparr>))) =
     ''12/07 17:43:35  '' @ [CHR 0x0A] @ ''HEAT SP: 72F    ''
   \<and> redLight (outcome_world (manageMyDisplay (Inr 80)
      (replicate 9 (quiet \<lparr>month = 12, day = 7, hour = 17, minute = 43, second = 26\<rparr> 80) @
       [quiet \<lparr>month = 12, day = 7, hour = 17, minute = 43, second = 35\<rparr> 65]) None
      (tsm\<lparr>current_state := Heat\<rparr>))) = Pulsing
   \<and> blueLight (outcome_world (manageMyDisplay (Inr 80)
      (replicate 9 (quiet \<lparr>month = 12, day = 7, hour = 17, minute = 43, second = 26\<rparr> 80) @
       [quiet \<lparr>month = 12, day = 7, hour = 17, minute = 43, second = 35\<rparr> 65]) None
      (tsm\<lparr>current_state := Heat\<rparr>))) = LedOff
   \<and> length (filter (startswith ''State: '') (stdout (outcome_world (manageMyDisplay (Inr 80)
      (replicate 9 (quiet \<lparr>month = 12, day = 7, hour = 17, minute = 43, second = 26\<rparr> 80) @
       [quiet \<lparr>month = 12, day = 7, hour = 17, minute = 43, second = 35\<rparr> 65]) None
      (tsm\<lparr>current_state := Heat\<rparr>))))) = 2"
  using line2_alternation [of
      "replicate 2 (quiet \<lparr>month = 12, day = 7, hour = 17, minute = 43, second = 26\<rparr> 70)"
      "quiet \<lparr>month = 12, day = 7, hour = 17, minute = 43, second = 28\<rparr> 71" tsm 70 None]
    line2_alternation [of
      "replicate 9 (quiet \<lparr>month = 12, day = 7, hour = 17, minute = 43, second = 26\<rparr> 80)"
      "quiet \<lparr>month = 12, day = 7, hour = 17, minute = 43, second = 35\<rparr> 65"
      "tsm\<lparr>current_state := Heat\<rparr>" 80 None]
  by (simp add: fault_free_quiet quiet_fields list_all_iff
        fit16_def ljust_def rjust_def str_int_def digits.simps digit_char_def strftime_def
        two_digits_def startswith_Cons tsm_outputs replicate_numeral)

subsection \<open>The telegram\<close>

text \<open>
  Claim C4. With a reading \<open>temp\<close>, \<^verbatim>\<open>setupSerialOutput\<close> returns the mode name
  in capitals, a comma, the reading in decimal, a comma and the setpoint in
  decimal, with nothing else between them; a pass whose counter is a multiple of 30
  and whose serial write succeeds appends exactly this string followed by a
  newline to what the serial port has received. The decimal fields contain only
  digits and a possible minus sign, and read back as the numbers they print. In
  mode \<open>Cool\<close> with reading 70 and setpoint 68 the line is \<^verbatim>\<open>COOL,70,68\<close>.
\<close>

theorem telegram_format:
  assumes "\<not> isl (temp_line2 e)" and "\<not> isl (temp_lights e)" and "lcd_fault e = None"
    and "temp_uart e = Inr temp" and "ser_fault e = None" and "c mod 30 = 0"
  shows "setupSerialOutput (Inr temp) w =
      Returned ((case current_state w of Off \<Rightarrow> ''OFF'' | Heat \<Rightarrow> ''HEAT'' | Cool \<Rightarrow> ''COOL'') @
        '','' @ str_int temp @ '','' @ str_int (setPoint w)) w
    \<and> serial_out (world_of (tick e c a w)) =
      serial_out w @
      [(case current_state w of Off \<Rightarrow> ''OFF'' | Heat \<Rightarrow> ''HEAT'' | Cool \<Rightarrow> ''COOL'') @
        '','' @ str_int temp @ '','' @ str_int (setPoint w) @ [CHR 0x0A]]
    \<and> set (str_int temp) \<subseteq> set ''-0123456789''
    \<and> set (str_int (setPoint w)) \<subseteq> set ''-0123456789''
    \<and> int_of_str (str_int temp) = temp
    \<and> int_of_str (str_int (setPoint w)) = setPoint w
    \<and> setupSerialOutput (Inr 70) (w\<lparr>current_state := Cool, setPoint := 68\<rparr>) =
      Returned ''COOL,70,68'' (w\<lparr>current_state := Cool, setPoint := 68\<rparr>)"
proof -
  have uart: "\<not> isl (temp_uart e)"
    by (simp add: assms(4))
  have "setupSerialOutput (Inr temp) w =
      Returned ((case current_state w of Off \<Rightarrow> ''OFF'' | Heat \<Rightarrow> ''HEAT'' | Cool \<Rightarrow> ''COOL'') @
        '','' @ str_int temp @ '','' @ str_int (setPoint w)) w"
    by (simp add: setupSerialOutput_def upper_state_id)
  moreover have "serial_out (world_of (tick e c a w)) =
      serial_out w @
      [(case current_state w of Off \<Rightarrow> ''OFF'' | Heat \<Rightarrow> ''HEAT'' | Cool \<Rightarrow> ''COOL'') @
        '','' @ str_int temp @ '','' @ str_int (setPoint w) @ [CHR 0x0A]]"
    unfolding tick_fields(6) [OF assms(1,2) uart assms(3)]
    by (simp add: assms(4,5,6) upper_state_id)
  moreover have "setupSerialOutput (Inr 70) (w\<lparr>current_state := Cool, setPoint := 68\<rparr>) =
      Returned ''COOL,70,68'' (w\<lparr>current_state := Cool, setPoint := 68\<rparr>)"
    by (simp add: setupSerialOutput_def upper_def upper_char_def str_int_def digits.simps
          digit_char_def)
  ultimately show ?thesis
    by (simp only: str_int_chars int_of_str_str_int simp_thms)
qed

theorem telegram_format_witness:
  "serial_out (world_of (tick (quiet \<lparr>month = 12, day = 7, hour = 17, minute = 43, second = 26\<rparr> 70)
      30 10 (tsm\<lparr>current_state := Cool, setPoint := 68\<rparr>))) = [''COOL,70,68'' @ [CHR 0x0A]]
   \<and> setupSerialOutput (Inr 65) tsm = Returned ''OFF,65,72'' tsm"
  using telegram_format [of "quiet \<lparr>month = 12, day = 7, hour = 17, minute = 43, second = 26\<rparr> 70"
      70 30 "tsm\<lparr>current_state := Cool, setPoint := 68\<rparr>" 10]
    telegram_format [of "quiet \<lparr>month = 12, day = 7, hour = 17, minute = 43, second = 26\<rparr> 65"
      65 30 tsm 10]
  by (simp add: quiet_fields str_int_def digits.simps digit_char_def tsm_outputs)

subsection \<open>A failed write of the telegram\<close>








subsection \<open>Failures and shutdown\<close>

lemma compose_line_2_stop_request:
  "compose_line_2 (e\<lparr>stop_request := b\<rparr>) a w = compose_line_2 e a w"
  by (simp add: compose_line_2_def Let_def)

lemma send_uart_stop_request: "send_uart (e\<lparr>stop_request := b\<rparr>) c w = send_uart e c w"
  by (simp add: send_uart_def Let_def cong: result.case_cong)

lemma tick_stop_request: "tick (e\<lparr>stop_request := b\<rparr>) c a w = tick e c a w"
  by (simp add: tick_def compose_line_2_stop_request send_uart_stop_request Let_def
        cong: result.case_cong prod.case_cong)


lemma display_loop_stop:
  assumes "display_loop es fault c0 a0 w0 = Running c a w"
    and "tick e c a w = Returned (c', a') w'" and "stop_request e"
  shows "display_loop (es @ e # es') fault c0 a0 w0 = teardown fault (w'\<lparr>endDisplay := True\<rparr>)"
proof -
  have "\<not> endDisplay w"
    using assms(1) by (rule Running_not_flag)
  then have "display_loop (e # es') fault c a w = teardown fault (w'\<lparr>endDisplay := True\<rparr>)"
    by (simp add: assms(2,3) display_loop_flag)
  then show ?thesis
    by (simp add: display_loop_append assms(1))
qed





lemma teardown_None:
  "teardown None w = Finished (w\<lparr>lcd_message := [], lcd_deinit := True\<rparr>)"
  by (simp add: teardown_def cleanupDisplay_def)


lemma loop_shutdown:
  assumes "list_all fault_free es" and "fault_free (e\<lparr>stop_request := False\<rparr>)"
    and "stop_request e" and "\<not> endDisplay w"
  shows "display_loop (es @ e # es') fault 1 1 w =
    teardown fault ((outcome_world (display_loop (es @ [e\<lparr>stop_request := False\<rparr>]) fault 1 1 w))
      \<lparr>endDisplay := True\<rparr>)"
proof -
  define c where "c = int (length es) mod 30 + 1"
  define a where "a = int (length es) mod 10 + 1"
  define wn where "wn = outcome_world (display_loop es fault 1 1 w)"
  have ok: "\<not> isl (temp_line2 e)" "\<not> isl (temp_lights e)" "\<not> isl (temp_uart e)"
      "lcd_fault e = None"
    using assms(2) by (simp_all add: fault_free_def)
  have run: "display_loop es fault 1 1 w = Running c a wn"
    unfolding c_def a_def wn_def using loop_invariant [OF assms(1,4)] by (rule conjunct1)
  obtain w' where t: "tick e c a wn =
      Returned (if c mod 30 = 0 then 1 else c + 1,
        if a < 6 then a + 1 else if 10 \<le> a then 1 else a + 1) w'"
    using tick_ok [OF ok] by blast
  have "w' = world_of (tick (e\<lparr>stop_request := False\<rparr>) c a wn)"
    by (simp add: tick_stop_request t)
  then have w': "w' = outcome_world (display_loop (es @ [e\<lparr>stop_request := False\<rparr>]) fault 1 1 w)"
    unfolding loop_last_pass [OF assms(1,2,4)] c_def a_def wn_def .
  show ?thesis
    unfolding w' [symmetric] by (rule display_loop_stop [OF run t assms(3)])
qed

lemma loop_leds_off:
  assumes "list_all fault_free es" and "\<not> endDisplay w" and "current_state w = Off"
    and "redLight w = LedOff" and "blueLight w = LedOff"
  shows "redLight (outcome_world (display_loop es fault 1 1 w)) = LedOff
    \<and> blueLight (outcome_world (display_loop es fault 1 1 w)) = LedOff"
  using assms(1)
proof (induction es rule: rev_induct)
  case Nil
  show ?case
    using assms(2,4,5) by simp
next
  case (snoc e es)
  have free: "fault_free e" and frees: "list_all fault_free es"
    using snoc.prems by simp_all
  have ok: "\<not> isl (temp_line2 e)" "\<not> isl (temp_lights e)" "\<not> isl (temp_uart e)"
      "lcd_fault e = None"
    using free by (simp_all add: fault_free_def)
  obtain t3 where t3: "temp_lights e = Inr t3"
    using ok(2) by (cases "temp_lights e") simp_all
  have mode: "current_state (outcome_world (display_loop es fault 1 1 w)) = Off"
    using loop_invariant [OF frees assms(2), of fault] assms(3) by simp
  show ?case
    unfolding loop_last_pass [OF frees free assms(2)] tick_fields(7,8) [OF ok]
    using snoc.IH [OF frees] by (simp add: t3 updateLights_leds mode)
qed


lemma manageMyDisplay_shutdown:
  assumes "list_all fault_free es" and "fault_free (e\<lparr>stop_request := False\<rparr>)"
    and "stop_request e" and "\<not> endDisplay w"
  shows "manageMyDisplay (Inr temp) (es @ e # es') None w =
    Finished ((outcome_world (manageMyDisplay (Inr temp) (es @ [e\<lparr>stop_request := False\<rparr>]) None w))
      \<lparr>endDisplay := True, lcd_message := [], lcd_deinit := True\<rparr>)"
proof -
  have flag: "\<not> endDisplay (world_of (updateLights (Inr temp) w))"
    using assms(4) by simp
  show ?thesis
    unfolding manageMyDisplay_Inr loop_shutdown [OF assms(1,2,3) flag] teardown_None
    by simp
qed

text \<open>
  Claim C6, as the code has it. When the loop sees the flag it clears and releases
  the display and returns; it writes nothing to the LEDs. If the flag is set
  during a pass, that pass is the last one: whatever passes the script holds after
  it are not run, and the world at the end is the world after that pass with the
  flag set, the display cleared and its pins released. So each LED is left as it
  was after the last pass; with the machine in mode \<open>Off\<close> both are off.
\<close>

theorem shutdown_teardown_only:
  assumes "list_all fault_free es" and "fault_free (e\<lparr>stop_request := False\<rparr>)"
    and "stop_request e" and "\<not> endDisplay w"
  shows "manageMyDisplay (Inr temp) (es @ e # es') None w =
      Finished ((outcome_world (manageMyDisplay (Inr temp) (es @ [e\<lparr>stop_request := False\<rparr>]) None w))
        \<lparr>endDisplay := True, lcd_message := [], lcd_deinit := True\<rparr>)
    \<and> redLight (outcome_world (manageMyDisplay (Inr temp) (es @ e # es') None w)) =
      redLight (outcome_world (manageMyDisplay (Inr temp) (es @ [e\<lparr>stop_request := False\<rparr>]) None w))
    \<and> blueLight (outcome_world (manageMyDisplay (Inr temp) (es @ e # es') None w)) =
      blueLight (outcome_world (manageMyDisplay (Inr temp) (es @ [e\<lparr>stop_request := False\<rparr>]) None w))
    \<and> (current_state w = Off \<longrightarrow>
        redLight (outcome_world (manageMyDisplay (Inr temp) (es @ e # es') None w)) = LedOff
        \<and> blueLight (outcome_world (manageMyDisplay (Inr temp) (es @ e # es') None w)) = LedOff)
    \<and> display_loop es' None c a (w\<lparr>endDisplay := True\<rparr>) =
      Finished (w\<lparr>endDisplay := True, lcd_message := [], lcd_deinit := True\<rparr>)"
proof -
  note shut = manageMyDisplay_shutdown [OF assms, of temp es']
  have frees: "list_all fault_free (es @ [e\<lparr>stop_request := False\<rparr>])"
    using assms(1,2) by simp
  have off: "redLight (outcome_world (manageMyDisplay (Inr temp) (es @ [e\<lparr>stop_request := False\<rparr>]) None w)) = LedOff
      \<and> blueLight (outcome_world (manageMyDisplay (Inr temp) (es @ [e\<lparr>stop_request := False\<rparr>]) None w)) = LedOff"
    if "current_state w = Off"
    unfolding manageMyDisplay_Inr
    by (rule loop_leds_off [OF frees]) (simp_all add: assms(4) that updateLights_leds)
  have seen: "display_loop es' None c a (w\<lparr>endDisplay := True\<rparr>) =
      Finished (w\<lparr>endDisplay := True, lcd_message := [], lcd_deinit := True\<rparr>)"
    by (simp add: display_loop_flag teardown_None)
  show ?thesis
    unfolding shut using off seen by simp
qed

theorem shutdown_teardown_only_witness:
  "finished (manageMyDisplay (Inr 80)
      (replicate 3 (quiet \<lparr>month = 12, day = 7, hour = 17, minute = 43, second = 26\<rparr> 80) @
       (quiet \<lparr>month = 12, day = 7, hour = 17, minute = 43, second = 29\<rparr> 80)\<lparr>stop_request := True\<rparr> #
       [quiet \<lparr>month = 12, day = 7, hour = 17, minute = 43, second = 30\<rparr> 80]) None tsm)
   \<and> redLight (outcome_world (manageMyDisplay (Inr 80)
      (replicate 3 (quiet \<lparr>month = 12, day = 7, hour = 17, minute = 43, second = 26\<rparr> 80) @
       (quiet \<lparr>month = 12, day = 7, hour = 17, minute = 43, second = 29\<rparr> 80)\<lparr>stop_request := True\<rparr> #
       [quiet \<lparr>month = 12, day = 7, hour = 17, minute = 43, second = 30\<rparr> 80]) None tsm)) = LedOff
   \<and> lcd_deinit (outcome_world (manageMyDisplay (Inr 80)
      (replicate 3 (quiet \<lparr>month = 12, day = 7, hour = 17, minute = 43, second = 26\<rparr> 80) @
       (quiet \<lparr>month = 12, day = 7, hour = 17, minute = 43, second = 29\<rparr> 80)\<lparr>stop_request := True\<rparr> #
       [quiet \<lparr>month = 12, day = 7, hour = 17, minute = 43, second = 30\<rparr> 80]) None tsm))"
  using shutdown_teardown_only [of
      "replicate 3 (quiet \<lparr>month = 12, day = 7, hour = 17, minute = 43, second = 26\<rparr> 80)"
      "(quiet \<lparr>month = 12, day = 7, hour = 17, minute = 43, second = 29\<rparr> 80)\<lparr>stop_request := True\<rparr>"
      tsm 80 "[quiet \<lparr>month = 12, day = 7, hour = 17, minute = 43, second = 30\<rparr> 80]" 1 1]
  by (clarsimp simp: fault_free_quiet list_all_iff fault_free_def quiet_def)

text \<open>
  Claim C6 as stated fails: with the machine in mode \<open>Heat\<close> at 80 degrees and
  setpoint 72 the red LED is solid, the loop sees the flag after one pass and
  returns, and the red LED is still solid.
\<close>

theorem shutdown_leaves_indicator_on:
  "finished (manageMyDisplay (Inr 80)
      [(quiet \<lparr>month = 12, day = 7, hour = 17, minute = 43, second = 26\<rparr> 80)\<lparr>stop_request := True\<rparr>]
      None (presses restores_source [Green (Inr 80) (Inr 80)] tsm))
   \<and> current_state (outcome_world (manageMyDisplay (Inr 80)
      [(quiet \<lparr>month = 12, day = 7, hour = 17, minute = 43, second = 26\<rparr> 80)\<lparr>stop_request := True\<rparr>]
      None (presses restores_source [Green (Inr 80) (Inr 80)] tsm))) = Heat
   \<and> redLight (outcome_world (manageMyDisplay (Inr 80)
      [(quiet \<lparr>month = 12, day = 7, hour = 17, minute = 43, second = 26\<rparr> 80)\<lparr>stop_request := True\<rparr>]
      None (presses restores_source [Green (Inr 80) (Inr 80)] tsm))) = Solid"
proof -
  define q where "q = quiet \<lparr>month = 12, day = 7, hour = 17, minute = 43, second = 26\<rparr> 80"
  define w where "w = presses restores_source [Green (Inr 80) (Inr 80)] tsm"
  have w: "current_state w = Heat" "setPoint w = 72" "\<not> endDisplay w"
    by (simp_all add: w_def processTempStateButton_mode processTempStateButton_fields)
  have free: "fault_free (q\<lparr>stop_request := False\<rparr>)"
    by (simp add: q_def fault_free_def quiet_def)
  have ok: "\<not> isl (temp_line2 (q\<lparr>stop_request := False\<rparr>))"
      "\<not> isl (temp_lights (q\<lparr>stop_request := False\<rparr>))"
      "\<not> isl (temp_uart (q\<lparr>stop_request := False\<rparr>))"
      "lcd_fault (q\<lparr>stop_request := False\<rparr>) = None"
    using free by (simp_all add: fault_free_def)
  have flag: "\<not> endDisplay (world_of (updateLights (Inr 80) w))"
    using w(3) by simp
  have shut: "manageMyDisplay (Inr 80) ([] @ q\<lparr>stop_request := True\<rparr> # []) None w =
      Finished ((outcome_world (manageMyDisplay (Inr 80) ([] @ [q\<lparr>stop_request := False\<rparr>]) None w))
        \<lparr>endDisplay := True, lcd_message := [], lcd_deinit := True\<rparr>)"
    using manageMyDisplay_shutdown [of "[]" "q\<lparr>stop_request := True\<rparr>" w 80 "[]"] free w(3)
    by simp
  have last_pass: "outcome_world (manageMyDisplay (Inr 80) [q\<lparr>stop_request := False\<rparr>] None w) =
      world_of (tick (q\<lparr>stop_request := False\<rparr>) 1 1 (world_of (updateLights (Inr 80) w)))"
    unfolding manageMyDisplay_Inr using loop_last_pass [OF _ free flag, of "[]" None] flag by simp
  show ?thesis
    unfolding q_def [symmetric] w_def [symmetric]
    using shut
    by (simp add: last_pass tick_fields(1,7) [OF ok] updateLights_leds w)
qed














subsection \<open>The button handlers in either order\<close>

text \<open>
  One after the other, in either order, a press of the green button and a press
  of the red or of the blue button leave the same mode and the same setpoint: the
  green handler does not touch the setpoint and the other two do not touch the
  mode. (The sensor answers the enter hook.)
\<close>

theorem handlers_commute:
  "current_state (presses lib [Green (Inr temp) r, Red r'] w) =
     current_state (presses lib [Red r', Green (Inr temp) r] w)
   \<and> setPoint (presses lib [Green (Inr temp) r, Red r'] w) =
     setPoint (presses lib [Red r', Green (Inr temp) r] w)
   \<and> current_state (presses lib [Green (Inr temp) r, Blue r'] w) =
     current_state (presses lib [Blue r', Green (Inr temp) r] w)
   \<and> setPoint (presses lib [Green (Inr temp) r, Blue r'] w) =
     setPoint (presses lib [Blue r', Green (Inr temp) r] w)"
  by (simp add: processTempStateButton_mode processTempStateButton_fields
        processTempIncButton_mode processTempIncButton_setPoint
        processTempDecButton_mode processTempDecButton_setPoint)

end
